theory Spec2Isabelle
  imports Complex_Main
begin

section \<open>JavaScript strings\<close>

text \<open>
  A JavaScript string is a sequence of UTF-16 code units. The source uses the en dash
  (U+2013) and the em dash (U+2014), which are single code units, so a string is a list
  of code units as natural numbers. \<open>js\<close> turns an ASCII literal into such a string.
\<close>

type_synonym jsstring = "nat list"

definition js :: "string \<Rightarrow> jsstring" where
  "js s = map of_char s"

definition is_digit :: "nat \<Rightarrow> bool" where
  "is_digit c = (48 \<le> c \<and> c \<le> 57)"

definition is_lower :: "nat \<Rightarrow> bool" where
  "is_lower c = (97 \<le> c \<and> c \<le> 122)"

definition is_upper :: "nat \<Rightarrow> bool" where
  "is_upper c = (65 \<le> c \<and> c \<le> 90)"

text \<open>The class \<open>\w\<close>: ASCII letters, digits and the underscore.\<close>

definition is_word :: "nat \<Rightarrow> bool" where
  "is_word c = (is_digit c \<or> is_lower c \<or> is_upper c \<or> c = 95)"

text \<open>
  The class \<open>\s\<close>, which is also what \<open>String.prototype.trim\<close> strips: the
  WhiteSpace and LineTerminator code points of ECMAScript.
\<close>

definition is_space :: "nat \<Rightarrow> bool" where
  "is_space c = (c = 9 \<or> c = 10 \<or> c = 11 \<or> c = 12 \<or> c = 13 \<or> c = 32 \<or> c = 160
     \<or> c = 5760 \<or> (8192 \<le> c \<and> c \<le> 8202) \<or> c = 8232 \<or> c = 8233 \<or> c = 8239
     \<or> c = 8287 \<or> c = 12288 \<or> c = 65279)"

text \<open>
  Case folding of the \<open>i\<close> flag. Without the \<open>u\<close> flag a code unit outside ASCII is
  never folded onto an ASCII one, and every pattern of the source with the \<open>i\<close> flag
  is ASCII, so folding the ASCII capitals is all that can make two code units equal.
\<close>

definition fold_case :: "nat \<Rightarrow> nat" where
  "fold_case c = (if is_upper c then c + 32 else c)"

definition trim_js :: "jsstring \<Rightarrow> jsstring" where
  "trim_js s = rev (dropWhile is_space (rev (dropWhile is_space s)))"

text \<open>\<open>Array.prototype.join\<close> on an array of strings.\<close>

fun join_js :: "jsstring \<Rightarrow> jsstring list \<Rightarrow> jsstring" where
  "join_js sep [] = []"
| "join_js sep [x] = x"
| "join_js sep (x # y # ys) = x @ sep @ join_js sep (y # ys)"

text \<open>\<open>String.prototype.includes\<close>.\<close>

fun starts_with :: "jsstring \<Rightarrow> jsstring \<Rightarrow> bool" where
  "starts_with s [] = True"
| "starts_with [] (p # ps) = False"
| "starts_with (c # cs) (p # ps) = (c = p \<and> starts_with cs ps)"

fun includes_js :: "jsstring \<Rightarrow> jsstring \<Rightarrow> bool" where
  "includes_js [] h = starts_with [] h"
| "includes_js (c # cs) h = (starts_with (c # cs) h \<or> includes_js cs h)"

section \<open>Regular expressions\<close>

text \<open>
  The regular expressions of the source use literals, the classes \<open>\d\<close>, \<open>\w\<close>,
  \<open>\s\<close>, \<open>[a-z]\<close> and a bracket list, greedy quantifiers on a single class,
  optional groups, alternatives, \<open>\b\<close> and \<open>^\<close>. They have no back reference and no
  look-ahead, so backtracking matching is the list of all ways to match, in the order
  in which the backtracking matcher tries them: its head is the match JavaScript
  reports.
\<close>

datatype cclass = Digit | WordCh | Space | AtoZ | OneOf "nat list"

datatype rx =
    Lit jsstring
  | Cl cclass
  | Rep cclass nat "nat option"
  | Opt rx
  | Seq rx rx
  | Alt rx rx
  | Eps
  | WordB
  | Bol

fun in_class :: "bool \<Rightarrow> cclass \<Rightarrow> nat \<Rightarrow> bool" where
  "in_class ic Digit c = is_digit c"
| "in_class ic WordCh c = is_word c"
| "in_class ic Space c = is_space c"
| "in_class ic AtoZ c = (is_lower c \<or> (ic \<and> is_upper c))"
| "in_class ic (OneOf cs) c = (if ic then fold_case c \<in> set (map fold_case cs) else c \<in> set cs)"

text \<open>A literal, code unit by code unit; the result is the rest of the input.\<close>

fun lit_match :: "bool \<Rightarrow> jsstring \<Rightarrow> jsstring \<Rightarrow> jsstring option" where
  "lit_match ic [] s = Some s"
| "lit_match ic (p # ps) [] = None"
| "lit_match ic (p # ps) (c # cs) =
     (if (if ic then fold_case c = fold_case p else c = p) then lit_match ic ps cs else None)"

text \<open>
  A match position is the code unit before it (\<open>None\<close> at index 0) and the input from
  it on. \<open>\b\<close> holds where exactly one of the two neighbours is a word character.
\<close>

type_synonym mpos = "nat option \<times> jsstring"

definition word_before :: "nat option \<Rightarrow> bool" where
  "word_before p = (case p of None \<Rightarrow> False | Some c \<Rightarrow> is_word c)"

definition word_after :: "jsstring \<Rightarrow> bool" where
  "word_after s = (case s of [] \<Rightarrow> False | c # _ \<Rightarrow> is_word c)"

definition last_of :: "nat option \<Rightarrow> jsstring \<Rightarrow> nat option" where
  "last_of p w = (if w = [] then p else Some (last w))"

text \<open>
  The greedy quantifier \<open>{lo,hi}\<close> on a class (\<open>hi = None\<close> for no upper bound): the
  longest run first, then the shorter ones down to \<open>lo\<close>.
\<close>

fun rep_match :: "bool \<Rightarrow> cclass \<Rightarrow> nat \<Rightarrow> nat option \<Rightarrow> nat option \<Rightarrow> jsstring \<Rightarrow> mpos list" where
  "rep_match ic k lo hi p [] = (if lo = 0 then [(p, [])] else [])"
| "rep_match ic k lo hi p (c # cs) =
     (if hi \<noteq> Some 0 \<and> in_class ic k c
      then rep_match ic k (lo - 1) (map_option (\<lambda>h. h - 1) hi) (Some c) cs
      else [])
     @ (if lo = 0 then [(p, c # cs)] else [])"

fun rxm :: "bool \<Rightarrow> rx \<Rightarrow> nat option \<Rightarrow> jsstring \<Rightarrow> mpos list" where
  "rxm ic (Lit w) p s =
     (case lit_match ic w s of None \<Rightarrow> [] | Some rest \<Rightarrow> [(last_of p (take (length w) s), rest)])"
| "rxm ic (Cl k) p s =
     (case s of [] \<Rightarrow> [] | c # cs \<Rightarrow> if in_class ic k c then [(Some c, cs)] else [])"
| "rxm ic (Rep k lo hi) p s = rep_match ic k lo hi p s"
| "rxm ic (Opt r) p s = rxm ic r p s @ [(p, s)]"
| "rxm ic (Seq r1 r2) p s = concat (map (\<lambda>(p', s'). rxm ic r2 p' s') (rxm ic r1 p s))"
| "rxm ic (Alt r1 r2) p s = rxm ic r1 p s @ rxm ic r2 p s"
| "rxm ic Eps p s = [(p, s)]"
| "rxm ic WordB p s = (if word_before p \<noteq> word_after s then [(p, s)] else [])"
| "rxm ic Bol p s = (if p = None then [(p, s)] else [])"

definition seq :: "rx list \<Rightarrow> rx" where
  "seq rs = foldr Seq rs Eps"

definition alt :: "rx list \<Rightarrow> rx" where
  "alt rs = (case rs of [] \<Rightarrow> Eps | r # rest \<Rightarrow> foldl Alt r rest)"

definition words :: "string list \<Rightarrow> rx" where
  "words ws = alt (map (\<lambda>w. Lit (js w)) ws)"

text \<open>\<open>RegExp.prototype.test\<close>: is there a match at some index, the end included.\<close>

fun rx_search :: "bool \<Rightarrow> rx \<Rightarrow> nat option \<Rightarrow> jsstring \<Rightarrow> bool" where
  "rx_search ic r p [] = (rxm ic r p [] \<noteq> [])"
| "rx_search ic r p (c # cs) = (rxm ic r p (c # cs) \<noteq> [] \<or> rx_search ic r (Some c) cs)"

definition rx_test :: "bool \<Rightarrow> rx \<Rightarrow> jsstring \<Rightarrow> bool" where
  "rx_test ic r s = rx_search ic r None s"

text \<open>
  \<open>s.replace(r, "")\<close> for a regular expression without the \<open>g\<close> flag: the first
  match, at the lowest index, is removed.
\<close>

fun rx_remove :: "bool \<Rightarrow> rx \<Rightarrow> nat option \<Rightarrow> jsstring \<Rightarrow> jsstring" where
  "rx_remove ic r p [] = []"
| "rx_remove ic r p (c # cs) =
     (case rxm ic r p (c # cs) of
        (p', rest) # _ \<Rightarrow> rest
      | [] \<Rightarrow> c # rx_remove ic r (Some c) cs)"

definition replace_empty :: "bool \<Rightarrow> rx \<Rightarrow> jsstring \<Rightarrow> jsstring" where
  "replace_empty ic r s = rx_remove ic r None s"

text \<open>A match never yields more input than it was given.\<close>

lemma lit_match_length: "lit_match ic w s = Some rest \<Longrightarrow> length rest \<le> length s"
  by (induction ic w s rule: lit_match.induct) (auto split: if_splits)

lemma rep_match_length: "(p', s') \<in> set (rep_match ic k lo hi p s) \<Longrightarrow> length s' \<le> length s"
proof (induction s arbitrary: lo hi p)
  case Nil
  then show ?case by (auto split: if_splits)
next
  case (Cons c cs)
  then show ?case by (fastforce split: if_splits)
qed

lemma rxm_length: "(p', s') \<in> set (rxm ic r p s) \<Longrightarrow> length s' \<le> length s"
proof (induction r arbitrary: p s p' s')
  case (Lit w)
  then show ?case by (auto split: option.splits dest: lit_match_length [OF sym])
next
  case (Cl k)
  then show ?case by (auto split: list.splits if_splits)
next
  case (Rep k lo hi)
  then show ?case by (auto dest: rep_match_length)
next
  case (Opt r)
  then show ?case by auto
next
  case (Seq r1 r2)
  from Seq.prems obtain q t where a: "(q, t) \<in> set (rxm ic r1 p s)"
    and b: "(p', s') \<in> set (rxm ic r2 q t)"
    by auto
  from Seq.IH(1) [OF a] Seq.IH(2) [OF b] show ?case by simp
next
  case (Alt r1 r2)
  then show ?case by auto
next
  case Eps
  then show ?case by simp
next
  case WordB
  then show ?case by (auto split: if_splits)
next
  case Bol
  then show ?case by (auto split: if_splits)
qed

text \<open>
  \<open>String.prototype.split\<close> with a regular expression without capture groups and
  without a limit, as ECMAScript defines it: \<open>cur\<close> is the input from the last split
  point \<open>p\<close> to the index \<open>q\<close> where a match is tried, \<open>s\<close> is the input from \<open>q\<close> on.
  No match is tried at the end of the input; a match that ends at \<open>p\<close> is skipped.
\<close>

function split_loop :: "bool \<Rightarrow> rx \<Rightarrow> nat option \<Rightarrow> jsstring \<Rightarrow> jsstring \<Rightarrow> jsstring list" where
  "split_loop ic r p cur [] = [cur]"
| "split_loop ic r p cur (c # cs) =
     (case rxm ic r p (c # cs) of
        [] \<Rightarrow> split_loop ic r (Some c) (cur @ [c]) cs
      | (p', rest) # _ \<Rightarrow>
          if length rest = Suc (length cs) \<and> cur = []
          then split_loop ic r (Some c) (cur @ [c]) cs
          else cur # split_loop ic r p' [] rest)"
  by pat_completeness auto
termination
proof (relation "measures [\<lambda>(ic, r, p, cur, s). length s, \<lambda>(ic, r, p, cur, s). length cur]",
    goal_cases)
  case 1
  show ?case by simp
next
  case (2 ic r p cur c cs)
  show ?case by simp
next
  case (3 ic r p cur c cs x xs p' rest)
  show ?case by simp
next
  case (4 ic r p cur c cs x xs p' rest)
  then have "(p', rest) \<in> set (rxm ic r p (c # cs))" by simp
  then have "length rest \<le> Suc (length cs)" using rxm_length by fastforce
  with 4 show ?case by (cases "length rest = Suc (length cs)") auto
qed

definition split_js :: "bool \<Rightarrow> rx \<Rightarrow> jsstring \<Rightarrow> jsstring list" where
  "split_js ic r s =
     (if s = [] then (if rxm ic r None [] \<noteq> [] then [] else [Nil])
      else split_loop ic r None [] s)"

section \<open>JavaScript values, dates and the built-ins\<close>

text \<open>
  A number is \<open>NaN\<close>, an infinity, or a finite double, kept as the rational number
  that it denotes: a whole number of minutes such as 60 and a fractional one such as 1.5
  are both values of the model. The two zeros of the doubles are the one value
  \<open>Fin 0\<close>: the source tells them apart nowhere.
\<close>

datatype jsnum = NaN | Fin rat | PosInf | NegInf

definition is_int :: "rat \<Rightarrow> bool" where
  "is_int q = (of_int \<lfloor>q\<rfloor> = q)"

text \<open>Truncation toward zero (\<open>ToIntegerOrInfinity\<close> on a finite number).\<close>

definition trunc :: "rat \<Rightarrow> int" where
  "trunc q = (if 0 \<le> q then \<lfloor>q\<rfloor> else \<lceil>q\<rceil>)"

definition isFinite :: "jsnum \<Rightarrow> bool" where
  "isFinite n = (case n of Fin _ \<Rightarrow> True | _ \<Rightarrow> False)"

text \<open>
  A \<open>Date\<close> object holds a time value: a whole number of milliseconds since the epoch,
  of magnitude at most 8.64e15, or \<open>NaN\<close> for an invalid date. \<open>new Date(v)\<close> is
  \<open>TimeClip\<close>: a value beyond the range gives an invalid date, a value within the range
  is truncated toward zero.
\<close>

datatype jsdate = InvalidDate | Time int

definition newDate :: "jsnum \<Rightarrow> jsdate" where
  "newDate v = (case v of
       Fin q \<Rightarrow> if \<bar>q\<bar> \<le> 8640000000000000 then Time (trunc q) else InvalidDate
     | _ \<Rightarrow> InvalidDate)"

text \<open>
  \<open>getTime\<close> reads the time value. No \<open>Date\<close> object holds a time value beyond the
  range of valid dates; the type \<open>jsdate\<close> has such values, and \<open>getTime\<close> reads them
  as the time value of an invalid date.
\<close>

definition getTime :: "jsdate \<Rightarrow> jsnum" where
  "getTime d = (case d of
       InvalidDate \<Rightarrow> NaN
     | Time t \<Rightarrow> if \<bar>t\<bar> \<le> 8640000000000000 then Fin (of_int t) else NaN)"

text \<open>\<open>isValid\<close> of date-fns, on a \<open>Date\<close> object.\<close>

definition isValid :: "jsdate \<Rightarrow> bool" where
  "isValid d = (d \<noteq> InvalidDate)"

text \<open>
  The values a parsed JSON body can hold in one of its properties. \<open>JUndefined\<close> is an
  absent property. An array or an object is kept as the string that \<open>ToPrimitive\<close>
  yields for it, which is all that \<open>Number\<close>, \<open>String\<close> and a template literal use.
\<close>

datatype jsval = JUndefined | JNull | JBool bool | JNum jsnum | JStr jsstring | JObj jsstring

definition truthy :: "jsval \<Rightarrow> bool" where
  "truthy v = (case v of
       JUndefined \<Rightarrow> False
     | JNull \<Rightarrow> False
     | JBool b \<Rightarrow> b
     | JNum n \<Rightarrow> n \<noteq> NaN \<and> n \<noteq> Fin 0
     | JStr s \<Rightarrow> s \<noteq> []
     | JObj _ \<Rightarrow> True)"

text \<open>
  What the date/time extraction (chrono-node) returns for a text: a list of results,
  each with a start and possibly an end; a component yields its \<open>Date\<close> and tells
  which fields were explicit in the text.
\<close>

datatype component = Year | Month | Day | Hour | Minute

record ParsedComponents =
  date :: jsdate
  certain :: "component list"

definition isCertain :: "ParsedComponents \<Rightarrow> component \<Rightarrow> bool" where
  "isCertain c f = (f \<in> set (certain c))"

record ParsedResult =
  pstart :: "ParsedComponents option"
  pend :: "ParsedComponents option"

text \<open>
  The built-ins and libraries that the source calls and that depend on Unicode tables,
  on the time zone of the process, on the clock, or on chrono-node. They are
  parameters of the model; \<open>chrono_parse\<close> is \<open>None\<close> when the library throws.
  \<open>toISOString\<close> is the built-in on a valid time value; on an invalid date the
  built-in throws a \<open>RangeError\<close>, which the model writes out where it is called.
  \<open>roundDouble\<close> is the rounding of an exact result of \<open>+\<close> or \<open>*\<close> to a double
  (round to nearest, ties to even, with overflow to an infinity).
\<close>

record runtime =
  chrono_parse :: "jsstring \<Rightarrow> jsdate \<Rightarrow> ParsedResult list option"
  toLowerCase :: "jsstring \<Rightarrow> jsstring"
  StringToNumber :: "jsstring \<Rightarrow> jsnum"
  NumberToString :: "jsnum \<Rightarrow> jsstring"
  currentYear :: jsnum
  newDateYMD :: "jsnum \<Rightarrow> jsnum \<Rightarrow> jsnum \<Rightarrow> jsdate"
  setFullYear :: "jsdate \<Rightarrow> jsnum \<Rightarrow> jsdate"
  toISOString :: "int \<Rightarrow> jsstring"
  getFullYear :: "jsdate \<Rightarrow> jsnum"
  getMonth :: "jsdate \<Rightarrow> jsnum"
  getDate :: "jsdate \<Rightarrow> jsnum"
  getHours :: "jsdate \<Rightarrow> jsnum"
  getMinutes :: "jsdate \<Rightarrow> jsnum"
  addDays :: "jsdate \<Rightarrow> int \<Rightarrow> jsdate"
  now :: jsdate
  roundDouble :: "rat \<Rightarrow> jsnum"

text \<open>
  The arithmetic of doubles. An integer of magnitude at most \<open>2^53\<close> is a double, so
  an exact result that is such an integer is the result; every other exact result is
  rounded by the runtime.
\<close>

definition fl :: "runtime \<Rightarrow> rat \<Rightarrow> jsnum" where
  "fl rt q = (if is_int q \<and> \<bar>q\<bar> \<le> 9007199254740992 then Fin q else roundDouble rt q)"

fun num_add :: "runtime \<Rightarrow> jsnum \<Rightarrow> jsnum \<Rightarrow> jsnum" where
  "num_add rt (Fin a) (Fin b) = fl rt (a + b)"
| "num_add rt NaN y = NaN"
| "num_add rt x NaN = NaN"
| "num_add rt PosInf NegInf = NaN"
| "num_add rt NegInf PosInf = NaN"
| "num_add rt PosInf y = PosInf"
| "num_add rt NegInf y = NegInf"
| "num_add rt (Fin a) PosInf = PosInf"
| "num_add rt (Fin a) NegInf = NegInf"

text \<open>Multiplication by a positive integer constant of the source (\<open>* 60\<close>, \<open>* 1000\<close>).\<close>

fun num_times :: "runtime \<Rightarrow> jsnum \<Rightarrow> int \<Rightarrow> jsnum" where
  "num_times rt (Fin a) k = fl rt (a * of_int k)"
| "num_times rt x k = x"

text \<open>\<open>Number(v)\<close> and \<open>String(v)\<close>.\<close>

definition Number :: "runtime \<Rightarrow> jsval \<Rightarrow> jsnum" where
  "Number rt v = (case v of
       JUndefined \<Rightarrow> NaN
     | JNull \<Rightarrow> Fin 0
     | JBool b \<Rightarrow> (if b then Fin 1 else Fin 0)
     | JNum n \<Rightarrow> n
     | JStr s \<Rightarrow> StringToNumber rt s
     | JObj s \<Rightarrow> StringToNumber rt s)"

definition String :: "runtime \<Rightarrow> jsval \<Rightarrow> jsstring" where
  "String rt v = (case v of
       JUndefined \<Rightarrow> js ''undefined''
     | JNull \<Rightarrow> js ''null''
     | JBool b \<Rightarrow> (if b then js ''true'' else js ''false'')
     | JNum n \<Rightarrow> NumberToString rt n
     | JStr s \<Rightarrow> s
     | JObj s \<Rightarrow> s)"

section \<open>The line filter and the title extractor\<close>

definition HINTS :: "jsstring list" where
  "HINTS = map js [''exam'', ''quiz'', ''midterm'', ''final'',
     ''assignment'', ''project'', ''paper'', ''hw'',
     ''reading'', ''presentation'', ''lab'', ''report'']"

definition month_names :: rx where
  "month_names = words [''jan'', ''feb'', ''mar'', ''apr'', ''may'', ''jun'', ''jul'', ''aug'',
     ''sep'', ''sept'', ''oct'', ''nov'', ''dec'']"

definition digits12 :: rx where
  "digits12 = Rep Digit 1 (Some 2)"

text \<open>\<^verbatim>\<open>/\b\d{1,2}\/\d{1,2}\b/\<close>\<close>

definition slash_date_rx :: rx where
  "slash_date_rx = seq [WordB, digits12, Lit (js ''/''), digits12, WordB]"

text \<open>\<^verbatim>\<open>/(?:jan|feb|mar|apr|may|jun|jul|aug|sep|sept|oct|nov|dec)\w*\s+\d{1,2}/i\<close>\<close>

definition month_name_rx :: rx where
  "month_name_rx = seq [month_names, Rep WordCh 0 None, Rep Space 1 None, digits12]"

text \<open>\<^verbatim>\<open>/\b(due|deadline)\b/i\<close>\<close>

definition due_rx :: rx where
  "due_rx = seq [WordB, words [''due'', ''deadline''], WordB]"

text \<open>\<^verbatim>\<open>/\b(exam|quiz|midterm|final)\b/i\<close>\<close>

definition exam_rx :: rx where
  "exam_rx = seq [WordB, words [''exam'', ''quiz'', ''midterm'', ''final''], WordB]"

text \<open>\<^verbatim>\<open>/\b\d+\b/\<close>\<close>

definition number_rx :: rx where
  "number_rx = seq [WordB, Rep Digit 1 None, WordB]"

definition isDatey :: "runtime \<Rightarrow> jsstring \<Rightarrow> bool" where
  "isDatey rt line =
     (let l = toLowerCase rt line;
          hasSlashDate = rx_test False slash_date_rx l;
          hasMonthName = rx_test True month_name_rx l;
          hasDue = rx_test True due_rx l;
          hasExamWord = rx_test True exam_rx l;
          hasOtherHint = list_ex (\<lambda>h. includes_js l h) HINTS;
          hasAnyNumber = rx_test False number_rx l
      in hasSlashDate \<or> hasMonthName \<or> hasDue \<or> hasExamWord \<or> (hasOtherHint \<and> hasAnyNumber))"

text \<open>\<^verbatim>\<open>/\s[\u2013\u2014-]\s/\<close>: en dash 8211, em dash 8212, hyphen 45.\<close>

definition dash_rx :: rx where
  "dash_rx = seq [Cl Space, Cl (OneOf [8211, 8212, 45]), Cl Space]"

text \<open>\<^verbatim>\<open>/^\s*\b(mon|tue|tues|wed|thu|thur|thurs|fri|sat|sun)\b\.?,?\s+/i\<close>\<close>

definition weekday_rx :: rx where
  "weekday_rx = seq [Bol, Rep Space 0 None, WordB,
     words [''mon'', ''tue'', ''tues'', ''wed'', ''thu'', ''thur'', ''thurs'', ''fri'', ''sat'', ''sun''],
     WordB, Opt (Lit (js ''.'')), Opt (Lit (js '','')), Rep Space 1 None]"

text \<open>\<^verbatim>\<open>/^(?:jan|feb|mar|apr|may|jun|jul|aug|sep|sept|oct|nov|dec)[a-z]*\s+\d{1,2}\s*/i\<close>\<close>

definition month_day_rx :: rx where
  "month_day_rx = seq [Bol, month_names, Rep AtoZ 0 None, Rep Space 1 None, digits12,
     Rep Space 0 None]"

text \<open>\<^verbatim>\<open>/^\d{1,2}\/\d{1,2}\s*/\<close>\<close>

definition lead_slash_rx :: rx where
  "lead_slash_rx = seq [Bol, digits12, Lit (js ''/''), digits12, Rep Space 0 None]"

text \<open>\<open>H\<close>, \<open>H:MM\<close>, then an optional space: \<^verbatim>\<open>\d{1,2}(:\d{2})?\s?\<close>\<close>

definition clock_rx :: rx where
  "clock_rx = seq [digits12, Opt (seq [Lit (js '':''), Rep Digit 2 (Some 2)]),
     Rep Space 0 (Some 1)]"

definition ampm :: rx where
  "ampm = words [''am'', ''pm'']"

text \<open>\<^verbatim>\<open>/^\d{1,2}(:\d{2})?\s?(am|pm)?\s*(\u2013|-)\s*\d{1,2}(:\d{2})?\s?(am|pm)?\s*/i\<close>\<close>

definition time_range_rx :: rx where
  "time_range_rx = seq [Bol, clock_rx, Opt ampm, Rep Space 0 None,
     alt [Lit [8211], Lit (js ''-'')], Rep Space 0 None,
     clock_rx, Opt ampm, Rep Space 0 None]"

text \<open>\<^verbatim>\<open>/^\d{1,2}(:\d{2})?\s?(am|pm)\s*/i\<close>\<close>

definition single_time_rx :: rx where
  "single_time_rx = seq [Bol, clock_rx, ampm, Rep Space 0 None]"

text \<open>The five replacements at the start of the line, in the order of the source.\<close>

definition strip_tokens :: "jsstring \<Rightarrow> jsstring" where
  "strip_tokens line =
     (let s = line;
          s = replace_empty True weekday_rx s;
          s = replace_empty True month_day_rx s;
          s = replace_empty False lead_slash_rx s;
          s = replace_empty True time_range_rx s;
          s = replace_empty True single_time_rx s
      in s)"

definition extractTitle :: "jsstring \<Rightarrow> jsstring" where
  "extractTitle line =
     (let dashSplit = split_js False dash_rx line in
      if length dashSplit > 1 then trim_js (join_js (js '' - '') (drop 1 dashSplit))
      else
        let s = strip_tokens line
        in if trim_js s \<noteq> [] then trim_js s else trim_js line)"

section \<open>The event resolver\<close>

text \<open>
  The objects of the response array. \<open>end'\<close> is the property \<open>end\<close>, absent when
  \<open>None\<close>; \<open>start\<close> and \<open>end'\<close> are ISO strings.
\<close>

record ParsedEventOut =
  title :: jsstring
  start :: jsstring
  end' :: "jsstring option"
  allDay :: bool
  sourceLine :: jsstring

text \<open>What can be thrown inside the \<open>try\<close> block of the route.\<close>

datatype exn = RangeError | ExtractionFault

text \<open>\<^verbatim>\<open>/(\b\d{1,2}:\d{2}\s?(am|pm)?\b)|(\b\d{1,2}\s?(am|pm)\b)/i\<close>\<close>

definition time_token_rx :: rx where
  "time_token_rx = alt [
     seq [WordB, digits12, Lit (js '':''), Rep Digit 2 (Some 2), Rep Space 0 (Some 1), Opt ampm, WordB],
     seq [WordB, digits12, Rep Space 0 (Some 1), ampm, WordB]]"

definition isDeadline :: "jsstring \<Rightarrow> bool" where
  "isDeadline line = rx_test True due_rx line"

definition hasTimeToken :: "jsstring \<Rightarrow> bool" where
  "hasTimeToken line = rx_test True time_token_rx line"

text \<open>
  The first parse attempt and, for a deadline without a time token on which it found
  nothing, the second one with \<open>defaultTime\<close> appended: the value of \<open>results\<close>
  when the loop body tests \<open>results.length === 0\<close> for the second time.
\<close>

definition extraction :: "runtime \<Rightarrow> jsdate \<Rightarrow> jsval \<Rightarrow> jsstring \<Rightarrow> ParsedResult list option" where
  "extraction rt referenceDate defaultTime line =
     (case chrono_parse rt line referenceDate of
        None \<Rightarrow> None
      | Some results \<Rightarrow>
          if results = [] \<and> isDeadline line \<and> \<not> hasTimeToken line \<and> truthy defaultTime
          then chrono_parse rt (line @ js '' '' @ String rt defaultTime) referenceDate
          else Some results)"

text \<open>\<open>Number(defaultDurationMinutes) || 60\<close>\<close>

definition minutes_of :: "runtime \<Rightarrow> jsval \<Rightarrow> jsnum" where
  "minutes_of rt defaultDurationMinutes =
     (let n = Number rt defaultDurationMinutes in if n = NaN \<or> n = Fin 0 then Fin 60 else n)"

text \<open>\<open>d.setFullYear(refYear)\<close> unless the year is certain.\<close>

definition force_year :: "runtime \<Rightarrow> jsnum \<Rightarrow> ParsedComponents \<Rightarrow> jsdate" where
  "force_year rt refYear c =
     (if \<not> isCertain c Year then setFullYear rt (date c) refYear else date c)"

text \<open>
  The object pushed to \<open>out\<close>. \<open>toISOString\<close> throws on an invalid date; \<open>end\<close> is an
  object or undefined, so \<open>end ? \<dots> : undefined\<close> tests only its presence.
\<close>

definition emit :: "runtime \<Rightarrow> jsstring \<Rightarrow> jsdate \<Rightarrow> jsdate option \<Rightarrow> bool \<Rightarrow> jsstring
    \<Rightarrow> exn + ParsedEventOut" where
  "emit rt ttl st en ad line =
     (case st of
        InvalidDate \<Rightarrow> Inl RangeError
      | Time t \<Rightarrow>
          (case en of
             None \<Rightarrow> Inr \<lparr>title = ttl, start = toISOString rt t, end' = None,
                         allDay = ad, sourceLine = line\<rparr>
           | Some InvalidDate \<Rightarrow> Inl RangeError
           | Some (Time u) \<Rightarrow> Inr \<lparr>title = ttl, start = toISOString rt t,
                         end' = Some (toISOString rt u), allDay = ad, sourceLine = line\<rparr>))"

text \<open>
  The loop body from \<open>const r = results[0]\<close> on. The result is \<open>Inr None\<close> for
  \<open>continue\<close>, \<open>Inr (Some e)\<close> when \<open>e\<close> is pushed, \<open>Inl x\<close> when \<open>x\<close> is thrown.
\<close>

definition resolve :: "runtime \<Rightarrow> jsnum \<Rightarrow> jsval \<Rightarrow> jsstring \<Rightarrow> ParsedResult
    \<Rightarrow> exn + ParsedEventOut option" where
  "resolve rt refYear defaultDurationMinutes line r =
     (case pstart r of
        None \<Rightarrow> Inr None
      | Some rs \<Rightarrow>
          if \<not> isValid (date rs) then Inr None
          else if \<not> (isCertain rs Month \<and> isCertain rs Day) then Inr None
          else
            let st = force_year rt refYear rs;
                hasRange = (pend r \<noteq> None);
                en = (case pend r of
                        None \<Rightarrow> None
                      | Some re \<Rightarrow>
                          let e = force_year rt refYear re
                          in if \<not> isValid e then None else Some e);
                hasTime = (isCertain rs Hour \<or> isCertain rs Minute \<or> hasRange \<or> hasTimeToken line);
                en = (if \<not> hasRange \<and> hasTime \<and> isDeadline line then None else en);
                en = (if \<not> hasRange \<and> hasTime \<and> \<not> isDeadline line
                      then let minutes = minutes_of rt defaultDurationMinutes
                           in Some (newDate (num_add rt (getTime st)
                                (num_times rt (num_times rt minutes 60) 1000)))
                      else en);
                ad = (\<not> hasTime);
                ttl = (if extractTitle line \<noteq> [] then extractTitle line else js ''Course Event'')
            in map_sum id Some (emit rt ttl st en ad line))"

definition processLine :: "runtime \<Rightarrow> jsnum \<Rightarrow> jsdate \<Rightarrow> jsval \<Rightarrow> jsval \<Rightarrow> jsstring
    \<Rightarrow> exn + ParsedEventOut option" where
  "processLine rt refYear referenceDate defaultDurationMinutes defaultTime line =
     (case extraction rt referenceDate defaultTime line of
        None \<Rightarrow> Inl ExtractionFault
      | Some [] \<Rightarrow> Inr None
      | Some (r # _) \<Rightarrow> resolve rt refYear defaultDurationMinutes line r)"

text \<open>The \<open>for\<close> loop: the events pushed to \<open>out\<close>, or the first exception.\<close>

fun resolveLines :: "runtime \<Rightarrow> jsnum \<Rightarrow> jsdate \<Rightarrow> jsval \<Rightarrow> jsval \<Rightarrow> jsstring list
    \<Rightarrow> exn + ParsedEventOut list" where
  "resolveLines rt refYear referenceDate dur dt [] = Inr []"
| "resolveLines rt refYear referenceDate dur dt (line # rest) =
     (case processLine rt refYear referenceDate dur dt line of
        Inl x \<Rightarrow> Inl x
      | Inr None \<Rightarrow> resolveLines rt refYear referenceDate dur dt rest
      | Inr (Some e) \<Rightarrow>
          (case resolveLines rt refYear referenceDate dur dt rest of
             Inl x \<Rightarrow> Inl x
           | Inr out \<Rightarrow> Inr (e # out)))"

subsection \<open>De-duplication\<close>

text \<open>
  A JavaScript \<open>Map\<close> keeps its entries in the order in which their keys were first
  set; setting a key that is present replaces the value and leaves the entry where it
  is. \<open>new Map(entries)\<close> sets the entries one after the other.
\<close>

fun map_set :: "('k \<times> 'v) list \<Rightarrow> 'k \<Rightarrow> 'v \<Rightarrow> ('k \<times> 'v) list" where
  "map_set [] k v = [(k, v)]"
| "map_set ((k', v') # m) k v = (if k' = k then (k', v) # m else (k', v') # map_set m k v)"

definition new_Map :: "('k \<times> 'v) list \<Rightarrow> ('k \<times> 'v) list" where
  "new_Map entries = foldl (\<lambda>m (k, v). map_set m k v) [] entries"

definition map_values :: "('k \<times> 'v) list \<Rightarrow> 'v list" where
  "map_values m = map snd m"

text \<open>The key \<^verbatim>\<open>`${e.title}|${e.start}`\<close>; 124 is the vertical bar.\<close>

definition dedup_key :: "ParsedEventOut \<Rightarrow> jsstring" where
  "dedup_key e = title e @ [124] @ start e"

definition unique :: "ParsedEventOut list \<Rightarrow> ParsedEventOut list" where
  "unique out = map_values (new_Map (map (\<lambda>e. (dedup_key e, e)) out))"

subsection \<open>The parse route\<close>

text \<open>
  The four properties that the route reads from the parsed request body, \<open>JUndefined\<close>
  when the property is absent, when the body is not an object or when it is not JSON.
\<close>

record request =
  body_text :: jsval
  body_fallbackYear :: jsval
  body_defaultDurationMinutes :: jsval
  body_defaultTime :: jsval

text \<open>
  The body of a JSON response of the routes: an array of events, or the object
  \<open>{ error: \<dots> }\<close> that the routes of this repository send with a failure status.
\<close>

datatype json = EventArray "ParsedEventOut list" | ErrorObject jsstring

record response =
  payload :: json
  status :: nat

text \<open>\<^verbatim>\<open>/\r?\n/\<close>\<close>

definition newline_rx :: rx where
  "newline_rx = seq [Opt (Lit [13]), Lit [10]]"

definition input_lines :: "runtime \<Rightarrow> jsval \<Rightarrow> jsstring list" where
  "input_lines rt text =
     filter (isDatey rt) (filter (\<lambda>l. l \<noteq> [])
       (map trim_js (split_js False newline_rx (String rt text))))"

definition refYear_of :: "runtime \<Rightarrow> jsval \<Rightarrow> jsnum" where
  "refYear_of rt fallbackYear =
     (if isFinite (Number rt fallbackYear) then Number rt fallbackYear else currentYear rt)"

text \<open>A destructuring default applies when the property is undefined.\<close>

definition default_to :: "jsval \<Rightarrow> jsval \<Rightarrow> jsval" where
  "default_to v d = (if v = JUndefined then d else v)"

text \<open>The \<open>try\<close> block of \<open>POST\<close>.\<close>

definition POST_try :: "runtime \<Rightarrow> request \<Rightarrow> exn + response" where
  "POST_try rt req =
     (let text = body_text req;
          fallbackYear = body_fallbackYear req;
          defaultDurationMinutes = default_to (body_defaultDurationMinutes req) (JNum (Fin 60));
          defaultTime = default_to (body_defaultTime req) (JStr (js ''23:59''))
      in if \<not> truthy text then Inr \<lparr>payload = EventArray [], status = 200\<rparr>
         else
           let refYear = refYear_of rt fallbackYear;
               referenceDate = newDateYMD rt refYear (Fin 7) (Fin 1);
               lines = input_lines rt text
           in case resolveLines rt refYear referenceDate defaultDurationMinutes defaultTime lines of
                Inl x \<Rightarrow> Inl x
              | Inr out \<Rightarrow> Inr \<lparr>payload = EventArray (unique out), status = 200\<rparr>)"

text \<open>\<open>POST\<close> with its \<open>catch\<close> clause.\<close>

definition POST :: "runtime \<Rightarrow> request \<Rightarrow> response" where
  "POST rt req =
     (case POST_try rt req of
        Inl x \<Rightarrow> \<lparr>payload = EventArray [], status = 200\<rparr>
      | Inr res \<Rightarrow> res)"

section \<open>The calendar serializer\<close>

text \<open>\<open>String(n).padStart(2, "0")\<close>; 48 is the digit zero.\<close>

definition pad :: "runtime \<Rightarrow> jsnum \<Rightarrow> jsstring" where
  "pad rt n = (let s = NumberToString rt n in replicate (2 - length s) 48 @ s)"

definition fmtDate :: "runtime \<Rightarrow> jsdate \<Rightarrow> jsstring" where
  "fmtDate rt d =
     NumberToString rt (getFullYear rt d) @ pad rt (num_add rt (getMonth rt d) (Fin 1))
       @ pad rt (getDate rt d)"

definition fmtDateTime :: "runtime \<Rightarrow> jsdate \<Rightarrow> jsstring" where
  "fmtDateTime rt d =
     fmtDate rt d @ js ''T'' @ pad rt (getHours rt d) @ pad rt (getMinutes rt d) @ js ''00''"

text \<open>\<open>s.replace(/c/g, w)\<close> for a single code unit \<open>c\<close>.\<close>

definition replace_all :: "nat \<Rightarrow> jsstring \<Rightarrow> jsstring \<Rightarrow> jsstring" where
  "replace_all c w s = concat (map (\<lambda>x. if x = c then w else [x]) s)"

text \<open>Backslash is 92, line feed 10, comma 44, semicolon 59, the letter n 110.\<close>

definition esc :: "jsstring \<Rightarrow> jsstring" where
  "esc s = replace_all 59 [92, 59] (replace_all 44 [92, 44]
     (replace_all 10 [92, 110] (replace_all 92 [92, 92] s)))"

record EventLike =
  ev_title :: jsstring
  ev_start :: jsdate
  ev_end :: "jsdate option"
  ev_allDay :: "bool option"
  description :: "jsstring option"

text \<open>
  \<open>addMinutes\<close> of date-fns, called by the source with the whole number 60: the time
  value moved by the minutes, clipped. The sum of two whole numbers of milliseconds in the
  range of dates is exact.
\<close>

definition addMinutes :: "jsdate \<Rightarrow> int \<Rightarrow> jsdate" where
  "addMinutes d n = (case d of
       InvalidDate \<Rightarrow> InvalidDate
     | Time t \<Rightarrow> newDate (Fin (of_int (t + n * 60000))))"

text \<open>\<open>e.end ?? e.start\<close>\<close>

definition end_or_start :: "EventLike \<Rightarrow> jsdate" where
  "end_or_start e = (case ev_end e of None \<Rightarrow> ev_start e | Some d \<Rightarrow> d)"

text \<open>The lines that the callback of \<open>events.forEach\<close> pushes for the event \<open>e\<close> at index \<open>i\<close>.\<close>

definition event_lines :: "runtime \<Rightarrow> jsstring \<Rightarrow> EventLike \<Rightarrow> nat \<Rightarrow> jsstring list" where
  "event_lines rt dtstamp e i =
     (let uid = NumberToString rt (getTime (now rt)) @ js ''-'' @ NumberToString rt (Fin (of_nat i))
                  @ js ''@syllabus.local''
      in [js ''BEGIN:VEVENT'',
          js ''UID:'' @ uid,
          js ''SUMMARY:'' @ esc (ev_title e),
          js ''DTSTAMP:'' @ dtstamp]
         @ (if ev_allDay e = Some True
            then let startDate = fmtDate rt (ev_start e);
                     endDate = fmtDate rt (addDays rt (end_or_start e) 1)
                 in [js ''DTSTART;VALUE=DATE:'' @ startDate, js ''DTEND;VALUE=DATE:'' @ endDate]
            else let startDT = fmtDateTime rt (ev_start e);
                     endDT = fmtDateTime rt
                       (case ev_end e of None \<Rightarrow> addMinutes (ev_start e) 60 | Some d \<Rightarrow> d)
                 in [js ''DTSTART:'' @ startDT, js ''DTEND:'' @ endDT])
         @ (case description e of
              None \<Rightarrow> []
            | Some d \<Rightarrow> if d \<noteq> [] then [js ''DESCRIPTION:'' @ esc d] else [])
         @ [js ''STATUS:CONFIRMED'', js ''END:VEVENT''])"

definition makeICS_lines :: "runtime \<Rightarrow> EventLike list \<Rightarrow> jsstring option \<Rightarrow> jsstring list" where
  "makeICS_lines rt events calendarName =
     (let name = (case calendarName of None \<Rightarrow> js ''Syllabus'' | Some n \<Rightarrow> n);
          dtstamp = fmtDateTime rt (now rt)
      in [js ''BEGIN:VCALENDAR'',
          js ''VERSION:2.0'',
          js ''PRODID:-//SyllabusToCalendar//EN'',
          js ''CALSCALE:GREGORIAN'',
          js ''NAME:'' @ esc name,
          js ''X-WR-CALNAME:'' @ esc name]
         @ concat (map (\<lambda>(e, i). event_lines rt dtstamp e i) (zip events [0..<length events]))
         @ [js ''END:VCALENDAR''])"

definition makeICS :: "runtime \<Rightarrow> EventLike list \<Rightarrow> jsstring option \<Rightarrow> jsstring" where
  "makeICS rt events calendarName = join_js [13, 10] (makeICS_lines rt events calendarName)"

section \<open>A runtime in UTC\<close>

text \<open>
  One instance of the built-ins, for evaluating the model on concrete inputs: the
  process runs in UTC, so local time is UTC and the calendar functions are those of
  ECMAScript on the proleptic Gregorian calendar. \<open>toLowerCase\<close> is the built-in on
  ASCII input; \<open>StringToNumber\<close> is the built-in on signed decimal literals without an
  exponent, and yields the number that the literal writes; \<open>NumberToString\<close> is the
  built-in on whole numbers below \<open>10^21\<close> and on fractions with a short decimal
  expansion; \<open>roundDouble\<close> is the built-in on a number that is a double. The
  date/time extraction is an argument.
\<close>

definition msPerDay :: int where
  "msPerDay = 86400000"

text \<open>Year, month (from 1) and day of the month of a day number, and back.\<close>

definition civil_from_days :: "int \<Rightarrow> int \<times> int \<times> int" where
  "civil_from_days z0 =
     (let z = z0 + 719468;
          era = z div 146097;
          doe = z - era * 146097;
          yoe = (doe - doe div 1460 + doe div 36524 - doe div 146096) div 365;
          doy = doe - (365 * yoe + yoe div 4 - yoe div 100);
          mp = (5 * doy + 2) div 153;
          d = doy - (153 * mp + 2) div 5 + 1;
          m = (if mp < 10 then mp + 3 else mp - 9);
          y = yoe + era * 400
      in (if m \<le> 2 then y + 1 else y, m, d))"

definition days_from_civil :: "int \<Rightarrow> int \<Rightarrow> int \<Rightarrow> int" where
  "days_from_civil y0 m d =
     (let y = (if m \<le> 2 then y0 - 1 else y0);
          era = y div 400;
          yoe = y - era * 400;
          doy = (153 * (if m > 2 then m - 3 else m + 9) + 2) div 5 + d - 1;
          doe = yoe * 365 + yoe div 4 - yoe div 100 + doy
      in era * 146097 + doe - 719468)"

fun dec :: "nat \<Rightarrow> jsstring" where
  "dec n = (if n < 10 then [48 + n] else dec (n div 10) @ [48 + n mod 10])"

definition zpad :: "nat \<Rightarrow> jsstring \<Rightarrow> jsstring" where
  "zpad w s = replicate (w - length s) 48 @ s"

fun frac_digits :: "nat \<Rightarrow> rat \<Rightarrow> jsstring" where
  "frac_digits 0 q = []"
| "frac_digits (Suc n) q =
     (if q = 0 then []
      else (48 + nat \<lfloor>q * 10\<rfloor>) # frac_digits n (q * 10 - of_int \<lfloor>q * 10\<rfloor>))"

definition utc_NumberToString :: "jsnum \<Rightarrow> jsstring" where
  "utc_NumberToString n = (case n of
       NaN \<Rightarrow> js ''NaN''
     | PosInf \<Rightarrow> js ''Infinity''
     | NegInf \<Rightarrow> js ''-Infinity''
     | Fin q \<Rightarrow>
         if is_int q then (if q < 0 then js ''-'' else []) @ dec (nat \<bar>\<lfloor>q\<rfloor>\<bar>)
         else (if q < 0 then js ''-'' else []) @ dec (nat \<lfloor>\<bar>q\<bar>\<rfloor>) @ js ''.''
                @ frac_digits 17 (\<bar>q\<bar> - of_int \<lfloor>\<bar>q\<bar>\<rfloor>))"

fun undec :: "int \<Rightarrow> jsstring \<Rightarrow> int" where
  "undec acc [] = acc"
| "undec acc (c # cs) = undec (acc * 10 + int c - 48) cs"

definition unsigned_literal :: "jsstring \<Rightarrow> jsnum" where
  "unsigned_literal s =
     (let ip = takeWhile is_digit s;
          rest = dropWhile is_digit s;
          fp = (case rest of [] \<Rightarrow> Some [] | c # f \<Rightarrow> if c = 46 then Some f else None)
      in case fp of
           None \<Rightarrow> NaN
         | Some f \<Rightarrow>
             if \<not> list_all is_digit f \<or> (ip = [] \<and> f = []) then NaN
             else Fin (of_int (undec 0 ip) + of_int (undec 0 f) / 10 ^ length f))"

definition negate :: "jsnum \<Rightarrow> jsnum" where
  "negate n = (case n of NaN \<Rightarrow> NaN | Fin q \<Rightarrow> Fin (- q) | PosInf \<Rightarrow> NegInf | NegInf \<Rightarrow> PosInf)"

definition utc_StringToNumber :: "jsstring \<Rightarrow> jsnum" where
  "utc_StringToNumber s =
     (case trim_js s of
        [] \<Rightarrow> Fin 0
      | c # cs \<Rightarrow> if c = 45 then negate (unsigned_literal cs)
                  else if c = 43 then unsigned_literal cs
                  else unsigned_literal (c # cs))"

definition utc_toLowerCase :: "jsstring \<Rightarrow> jsstring" where
  "utc_toLowerCase s = map fold_case s"

definition utc_fields :: "int \<Rightarrow> int \<times> int \<times> int" where
  "utc_fields t = civil_from_days (t div msPerDay)"

definition utc_toISOString :: "int \<Rightarrow> jsstring" where
  "utc_toISOString t =
     (let (y, m, d) = utc_fields t;
          r = t mod msPerDay;
          year = (if 0 \<le> y \<and> y \<le> 9999 then zpad 4 (dec (nat y))
                  else (if y < 0 then js ''-'' else js ''+'') @ zpad 6 (dec (nat \<bar>y\<bar>)))
      in year @ js ''-'' @ zpad 2 (dec (nat m)) @ js ''-'' @ zpad 2 (dec (nat d))
         @ js ''T'' @ zpad 2 (dec (nat (r div 3600000)))
         @ js '':'' @ zpad 2 (dec (nat (r div 60000 mod 60)))
         @ js '':'' @ zpad 2 (dec (nat (r div 1000 mod 60)))
         @ js ''.'' @ zpad 3 (dec (nat (r mod 1000))) @ js ''Z'')"

definition utc_setFullYear :: "jsdate \<Rightarrow> jsnum \<Rightarrow> jsdate" where
  "utc_setFullYear d y =
     (case y of
        Fin yy \<Rightarrow>
          (let t = (case d of InvalidDate \<Rightarrow> 0 | Time t \<Rightarrow> t);
               (y0, m, dd) = utc_fields t
           in newDate (Fin (of_int (days_from_civil (trunc yy) m dd * msPerDay + t mod msPerDay))))
      | _ \<Rightarrow> InvalidDate)"

definition utc_newDateYMD :: "jsnum \<Rightarrow> jsnum \<Rightarrow> jsnum \<Rightarrow> jsdate" where
  "utc_newDateYMD y m d =
     (case (y, m, d) of
        (Fin yq, Fin mq, Fin dq) \<Rightarrow>
          (let yy = trunc yq; mm = trunc mq; dd = trunc dq;
               full = (if 0 \<le> yy \<and> yy \<le> 99 then 1900 + yy else yy)
           in newDate (Fin (of_int ((days_from_civil (full + mm div 12) (mm mod 12 + 1) 1 + dd - 1)
                * msPerDay))))
      | _ \<Rightarrow> InvalidDate)"

definition utc_get :: "(int \<Rightarrow> int) \<Rightarrow> jsdate \<Rightarrow> jsnum" where
  "utc_get f d = (case d of InvalidDate \<Rightarrow> NaN | Time t \<Rightarrow> Fin (of_int (f t)))"

definition utc_year :: "int \<Rightarrow> int" where
  "utc_year t = fst (utc_fields t)"

definition utc_month :: "int \<Rightarrow> int" where
  "utc_month t = fst (snd (utc_fields t)) - 1"

definition utc_day :: "int \<Rightarrow> int" where
  "utc_day t = snd (snd (utc_fields t))"

definition utc_hours :: "int \<Rightarrow> int" where
  "utc_hours t = t mod msPerDay div 3600000"

definition utc_minutes :: "int \<Rightarrow> int" where
  "utc_minutes t = t mod msPerDay div 60000 mod 60"

definition utc_addDays :: "jsdate \<Rightarrow> int \<Rightarrow> jsdate" where
  "utc_addDays d n =
     (case d of InvalidDate \<Rightarrow> InvalidDate | Time t \<Rightarrow> newDate (Fin (of_int (t + n * msPerDay))))"

definition utc_runtime :: "(jsstring \<Rightarrow> jsdate \<Rightarrow> ParsedResult list option) \<Rightarrow> jsdate \<Rightarrow> runtime" where
  "utc_runtime extract clock =
     \<lparr>chrono_parse = extract,
      toLowerCase = utc_toLowerCase,
      StringToNumber = utc_StringToNumber,
      NumberToString = utc_NumberToString,
      currentYear = utc_get utc_year clock,
      newDateYMD = utc_newDateYMD,
      setFullYear = utc_setFullYear,
      toISOString = utc_toISOString,
      getFullYear = utc_get utc_year,
      getMonth = utc_get utc_month,
      getDate = utc_get utc_day,
      getHours = utc_get utc_hours,
      getMinutes = utc_get utc_minutes,
      addDays = utc_addDays,
      now = clock,
      roundDouble = Fin\<rparr>"

text \<open>An extraction that answers from a table of texts and finds nothing elsewhere.\<close>

definition table_parse :: "(jsstring \<times> ParsedResult list) list \<Rightarrow> jsstring \<Rightarrow> jsdate
    \<Rightarrow> ParsedResult list option" where
  "table_parse tbl text referenceDate =
     Some (case map_of tbl text of None \<Rightarrow> [] | Some rs \<Rightarrow> rs)"

section \<open>Requests, results and example inputs\<close>

text \<open>The values of the local variables of \<open>POST\<close> for a request.\<close>

definition req_refYear :: "runtime \<Rightarrow> request \<Rightarrow> jsnum" where
  "req_refYear rt req = refYear_of rt (body_fallbackYear req)"

definition req_referenceDate :: "runtime \<Rightarrow> request \<Rightarrow> jsdate" where
  "req_referenceDate rt req = newDateYMD rt (req_refYear rt req) (Fin 7) (Fin 1)"

definition req_duration :: "request \<Rightarrow> jsval" where
  "req_duration req = default_to (body_defaultDurationMinutes req) (JNum (Fin 60))"

definition req_defaultTime :: "request \<Rightarrow> jsval" where
  "req_defaultTime req = default_to (body_defaultTime req) (JStr (js ''23:59''))"

definition req_results :: "runtime \<Rightarrow> request \<Rightarrow> jsstring \<Rightarrow> ParsedResult list option" where
  "req_results rt req line = extraction rt (req_referenceDate rt req) (req_defaultTime req) line"

definition events_of :: "response \<Rightarrow> ParsedEventOut list" where
  "events_of res = (case payload res of EventArray es \<Rightarrow> es | ErrorObject _ \<Rightarrow> [])"

subsection \<open>Example lines and an extraction that answers from a table\<close>

text \<open>
  The instants are 2025-10-02T23:59, 2025-10-06T13:30, 2025-12-12T12:00,
  2025-10-09T23:59 and 2025-10-09T12:00, in UTC. None of the example lines has a
  year, so no result has a certain year, except the invalid end of \<open>res_range\<close>.
\<close>

definition line_hw1 :: jsstring where
  "line_hw1 = js ''10/02 11:59pm HW 1 due''"

definition line_midterm :: jsstring where
  "line_midterm = js ''Oct 6 1:30 pm Midterm''"

definition line_final :: jsstring where
  "line_final = js ''Final exam Dec 12''"

definition line_range :: jsstring where
  "line_range = js ''Oct 6 1:30-3:00 pm Midterm''"

definition line_quiz :: jsstring where
  "line_quiz = js ''Quiz 3pm''"

definition line_dup_a :: jsstring where
  "line_dup_a = js ''10/02 11:59pm - HW 1 due''"

definition line_dup_b :: jsstring where
  "line_dup_b = js ''Oct 2 11:59pm - HW 1 due''"

definition line_hw2 :: jsstring where
  "line_hw2 = js ''HW2 due 10/9''"

definition line_hw2_retry :: jsstring where
  "line_hw2_retry = js ''HW2 due 10/9 23:59''"

definition timed :: "int \<Rightarrow> ParsedComponents" where
  "timed t = \<lparr>date = Time t, certain = [Month, Day, Hour, Minute]\<rparr>"

definition res_hw1 :: ParsedResult where
  "res_hw1 = \<lparr>pstart = Some (timed 1759449540000), pend = None\<rparr>"

definition res_midterm :: ParsedResult where
  "res_midterm = \<lparr>pstart = Some (timed 1759757400000), pend = None\<rparr>"

definition res_final :: ParsedResult where
  "res_final = \<lparr>pstart = Some \<lparr>date = Time 1765540800000, certain = [Month, Day]\<rparr>, pend = None\<rparr>"

definition res_range :: ParsedResult where
  "res_range = \<lparr>pstart = Some (timed 1759757400000),
     pend = Some \<lparr>date = InvalidDate, certain = [Year, Month, Day, Hour, Minute]\<rparr>\<rparr>"

definition res_quiz :: ParsedResult where
  "res_quiz = \<lparr>pstart = Some \<lparr>date = Time 1754060400000, certain = [Hour]\<rparr>, pend = None\<rparr>"

definition res_hw2_2359 :: ParsedResult where
  "res_hw2_2359 = \<lparr>pstart = Some (timed 1760054340000), pend = None\<rparr>"

definition res_hw2_noon :: ParsedResult where
  "res_hw2_noon = \<lparr>pstart = Some \<lparr>date = Time 1760011200000, certain = [Month, Day]\<rparr>, pend = None\<rparr>"

definition example_table :: "(jsstring \<times> ParsedResult list) list" where
  "example_table =
     [(line_hw1, [res_hw1]), (line_midterm, [res_midterm]), (line_final, [res_final]),
      (line_range, [res_range]), (line_quiz, [res_quiz]),
      (line_dup_a, [res_hw1]), (line_dup_b, [res_hw1]),
      (line_hw2_retry, [res_hw2_2359])]"

text \<open>
  \<open>example_runtime\<close> finds nothing on \<open>line_hw2\<close> itself; \<open>slash_runtime\<close> finds
  the date of \<open>line_hw2\<close> at the first attempt, with noon as the implied time;
  the extraction of \<open>faulty_runtime\<close> always throws.
\<close>

definition example_runtime :: runtime where
  "example_runtime = utc_runtime (table_parse example_table) (Time 0)"

definition slash_runtime :: runtime where
  "slash_runtime = utc_runtime (table_parse ((line_hw2, [res_hw2_noon]) # example_table)) (Time 0)"

definition faulty_runtime :: runtime where
  "faulty_runtime = utc_runtime (\<lambda>text referenceDate. None) (Time 0)"

definition example_request :: "jsstring \<Rightarrow> jsval \<Rightarrow> request" where
  "example_request text dur = \<lparr>body_text = JStr text, body_fallbackYear = JNum (Fin 2025),
     body_defaultDurationMinutes = dur, body_defaultTime = JUndefined\<rparr>"

definition batch_text :: jsstring where
  "batch_text = line_hw1 @ [10] @ line_midterm @ [13, 10] @ js ''  '' @ line_final @ [10, 10]
     @ js ''Office hours are fun''"

definition dup_text :: jsstring where
  "dup_text = line_dup_a @ [10] @ line_dup_b"

definition ev_hw1 :: ParsedEventOut where
  "ev_hw1 = \<lparr>title = js ''HW 1 due'', start = js ''2025-10-02T23:59:00.000Z'', end' = None,
     allDay = False, sourceLine = line_hw1\<rparr>"

definition ev_midterm :: ParsedEventOut where
  "ev_midterm = \<lparr>title = js ''Midterm'', start = js ''2025-10-06T13:30:00.000Z'',
     end' = Some (js ''2025-10-06T14:30:00.000Z''), allDay = False, sourceLine = line_midterm\<rparr>"

text \<open>The midterm under a default duration of a minute and a half.\<close>

definition ev_midterm_short :: ParsedEventOut where
  "ev_midterm_short = \<lparr>title = js ''Midterm'', start = js ''2025-10-06T13:30:00.000Z'',
     end' = Some (js ''2025-10-06T13:31:30.000Z''), allDay = False, sourceLine = line_midterm\<rparr>"

definition ev_final :: ParsedEventOut where
  "ev_final = \<lparr>title = js ''Final exam Dec 12'', start = js ''2025-12-12T12:00:00.000Z'',
     end' = None, allDay = True, sourceLine = line_final\<rparr>"

definition ev_range :: ParsedEventOut where
  "ev_range = \<lparr>title = js ''Midterm'', start = js ''2025-10-06T13:30:00.000Z'', end' = None,
     allDay = False, sourceLine = line_range\<rparr>"

definition ev_dup_a :: ParsedEventOut where
  "ev_dup_a = \<lparr>title = js ''HW 1 due'', start = js ''2025-10-02T23:59:00.000Z'', end' = None,
     allDay = False, sourceLine = line_dup_a\<rparr>"

definition ev_dup_b :: ParsedEventOut where
  "ev_dup_b = \<lparr>title = js ''HW 1 due'', start = js ''2025-10-02T23:59:00.000Z'', end' = None,
     allDay = False, sourceLine = line_dup_b\<rparr>"

definition ev_hw2_allday :: ParsedEventOut where
  "ev_hw2_allday = \<lparr>title = line_hw2, start = js ''2025-10-09T12:00:00.000Z'', end' = None,
     allDay = True, sourceLine = line_hw2\<rparr>"

text \<open>An all-day event whose end, 2025-10-05, is before its start, 2025-10-10.\<close>

definition ev_backwards :: EventLike where
  "ev_backwards = \<lparr>ev_title = js ''Trip'', ev_start = Time 1760054400000,
     ev_end = Some (Time 1759622400000), ev_allDay = Some True, description = None\<rparr>"

section \<open>Properties of the resolver\<close>

subsection \<open>What an emitted event says about its line\<close>

lemma emit_Inr:
  "emit rt ttl st en ad line = Inr e \<Longrightarrow>
     \<exists>t. st = Time t \<and> title e = ttl \<and> start e = toISOString rt t \<and> allDay e = ad
       \<and> sourceLine e = line
       \<and> (en = None \<longrightarrow> end' e = None)
       \<and> (\<forall>d. en = Some d \<longrightarrow> (\<exists>u. d = Time u \<and> end' e = Some (toISOString rt u)))"
  by (auto simp: emit_def split: jsdate.splits option.splits)

lemma newDate_Time:
  "newDate v = Time u \<Longrightarrow> \<exists>q. v = Fin q \<and> \<bar>q\<bar> \<le> 8640000000000000 \<and> u = trunc q"
  by (auto simp: newDate_def split: jsnum.splits if_splits)

lemma trunc_of_int: "trunc (of_int k) = k"
  by (simp add: trunc_def)

lemma newDate_of_int: "\<bar>k\<bar> \<le> 8640000000000000 \<Longrightarrow> newDate (Fin (of_int k)) = Time k"
proof -
  assume "\<bar>k\<bar> \<le> 8640000000000000"
  then have "\<bar>of_int k :: rat\<bar> \<le> of_int 8640000000000000"
    unfolding of_int_abs [symmetric] by (rule of_int_le_iff [THEN iffD2])
  then show ?thesis by (simp add: newDate_def trunc_of_int)
qed

lemma fl_of_int: "\<bar>k\<bar> \<le> 9007199254740992 \<Longrightarrow> fl rt (of_int k) = Fin (of_int k)"
proof -
  assume "\<bar>k\<bar> \<le> 9007199254740992"
  then have "\<bar>of_int k :: rat\<bar> \<le> of_int 9007199254740992"
    unfolding of_int_abs [symmetric] by (rule of_int_le_iff [THEN iffD2])
  then show ?thesis by (simp add: fl_def is_int_def)
qed

text \<open>
  The arithmetic of the end of a timed event is exact when the minutes make a whole number
  of seconds and are at most 6e9 in magnitude.
\<close>

lemma timed_end_exact:
  assumes u: "newDate (num_add rt (getTime (Time t)) (num_times rt (num_times rt (Fin q) 60) 1000))
      = Time u"
    and i: "is_int (q * 60)" and b: "\<bar>q\<bar> \<le> 6000000000"
  shows "u = t + \<lfloor>q * 60000\<rfloor>"
proof -
  define k where "k = \<lfloor>q * 60\<rfloor>"
  from i have q: "q * 60 = of_int k" unfolding is_int_def k_def by (rule sym)
  from b have "\<bar>q * 60\<bar> \<le> 360000000000" by (simp add: abs_mult)
  with q have "\<bar>of_int k :: rat\<bar> \<le> of_int 360000000000" by simp
  then have kb: "\<bar>k\<bar> \<le> 360000000000"
    unfolding of_int_abs [symmetric] by (simp only: of_int_le_iff)
  have s1: "num_times rt (Fin q) 60 = Fin (of_int k)"
    using fl_of_int [of k rt] kb q by simp
  have "of_int k * 1000 = (of_int (k * 1000) :: rat)" by simp
  then have s2: "num_times rt (Fin (of_int k)) 1000 = Fin (of_int (k * 1000))"
    using fl_of_int [of "k * 1000" rt] kb by simp
  have fl: "\<lfloor>q * 60000\<rfloor> = k * 1000"
  proof -
    have "q * 60000 = of_int (k * 1000)" using q by simp
    then show ?thesis by (simp only: floor_of_int)
  qed
  show ?thesis
  proof (cases "\<bar>t\<bar> \<le> 8640000000000000")
    case True
    then have g: "getTime (Time t) = Fin (of_int t)" by (simp add: getTime_def)
    have "of_int t + of_int (k * 1000) = (of_int (t + k * 1000) :: rat)" by simp
    then have "num_add rt (Fin (of_int t)) (Fin (of_int (k * 1000))) = Fin (of_int (t + k * 1000))"
      using fl_of_int [of "t + k * 1000" rt] True kb by simp
    with u g s1 s2 have "newDate (Fin (of_int (t + k * 1000))) = Time u" by simp
    from newDate_Time [OF this] have "u = t + k * 1000"
      by (auto simp: trunc_of_int simp del: of_int_add of_int_mult)
    with fl show ?thesis by simp
  next
    case False
    then have "getTime (Time t) = NaN" by (simp add: getTime_def)
    with u show ?thesis by (simp add: newDate_def)
  qed
qed

lemma map_sum_Some [simp]: "map_sum id Some x = Inr (Some e) \<longleftrightarrow> x = Inr e"
  by (cases x) auto

lemma resolve_Some:
  assumes "resolve rt y dur line r = Inr (Some e)"
  shows "\<exists>rs t. pstart r = Some rs \<and> isValid (date rs) \<and> isCertain rs Month \<and> isCertain rs Day
     \<and> force_year rt y rs = Time t
     \<and> title e = (if extractTitle line \<noteq> [] then extractTitle line else js ''Course Event'')
     \<and> start e = toISOString rt t
     \<and> sourceLine e = line
     \<and> allDay e = (\<not> (isCertain rs Hour \<or> isCertain rs Minute \<or> pend r \<noteq> None \<or> hasTimeToken line))
     \<and> (pend r = None \<and> (\<not> (isCertain rs Hour \<or> isCertain rs Minute \<or> hasTimeToken line) \<or> isDeadline line)
          \<longrightarrow> end' e = None)
     \<and> (pend r = None \<and> (isCertain rs Hour \<or> isCertain rs Minute \<or> hasTimeToken line) \<and> \<not> isDeadline line
          \<longrightarrow> (\<exists>u. newDate (num_add rt (getTime (Time t))
                     (num_times rt (num_times rt (minutes_of rt dur) 60) 1000)) = Time u
                \<and> end' e = Some (toISOString rt u)))
     \<and> (\<forall>re. pend r = Some re \<longrightarrow>
           end' e = (case force_year rt y re of InvalidDate \<Rightarrow> None | Time u \<Rightarrow> Some (toISOString rt u)))"
proof -
  from assms obtain rs where rs: "pstart r = Some rs"
    by (auto simp: resolve_def split: option.splits)
  from assms rs have v: "isValid (date rs)" and c: "isCertain rs Month" "isCertain rs Day"
    by (auto simp: resolve_def split: if_splits)
  show ?thesis
  proof (cases "pend r")
    case None
    show ?thesis
    proof (cases "isCertain rs Hour \<or> isCertain rs Minute \<or> hasTimeToken line")
      case False
      with assms rs v c None show ?thesis
        by (auto simp: resolve_def Let_def dest!: emit_Inr)
    next
      case True
      note ht = this
      show ?thesis
      proof (cases "isDeadline line")
        case True
        with assms rs v c None ht show ?thesis
          by (auto simp: resolve_def Let_def dest!: emit_Inr)
      next
        case False
        with assms rs v c None ht obtain e0 where
          "emit rt (if extractTitle line \<noteq> [] then extractTitle line else js ''Course Event'')
             (force_year rt y rs)
             (Some (newDate (num_add rt (getTime (force_year rt y rs))
                (num_times rt (num_times rt (minutes_of rt dur) 60) 1000)))) False line = Inr e0" "e0 = e"
          by (auto simp: resolve_def Let_def split: if_splits)
        from emit_Inr[OF this(1)] \<open>e0 = e\<close> obtain t u where
          t: "force_year rt y rs = Time t" "title e = (if extractTitle line \<noteq> [] then extractTitle line else js ''Course Event'')"
            "start e = toISOString rt t" "allDay e = False" "sourceLine e = line"
          and u: "newDate (num_add rt (getTime (force_year rt y rs))
               (num_times rt (num_times rt (minutes_of rt dur) 60) 1000)) = Time u"
             "end' e = Some (toISOString rt u)"
          by auto
        with rs v c None ht False t show ?thesis by auto
      qed
    qed
  next
    case (Some re)
    with assms rs v c show ?thesis
      by (auto simp: resolve_def Let_def isValid_def dest!: emit_Inr split: jsdate.splits)
  qed
qed

lemma processLine_Some:
  "processLine rt y ref dur dt line = Inr (Some e) \<Longrightarrow>
     \<exists>r rest. extraction rt ref dt line = Some (r # rest) \<and> resolve rt y dur line r = Inr (Some e)"
  by (auto simp: processLine_def split: option.splits list.splits)

lemma resolveLines_mem:
  "resolveLines rt y ref dur dt ls = Inr out \<Longrightarrow> e \<in> set out \<Longrightarrow>
     \<exists>l \<in> set ls. processLine rt y ref dur dt l = Inr (Some e)"
proof (induction ls arbitrary: out)
  case Nil
  then show ?case by simp
next
  case (Cons l ls)
  show ?case
  proof (cases "processLine rt y ref dur dt l")
    case (Inl x)
    with Cons.prems show ?thesis by simp
  next
    case (Inr o1)
    show ?thesis
    proof (cases o1)
      case None
      with Inr Cons show ?thesis by auto
    next
      case (Some e1)
      with Inr Cons.prems obtain out' where o: "resolveLines rt y ref dur dt ls = Inr out'"
        and out: "out = e1 # out'"
        by (auto split: sum.splits)
      show ?thesis
      proof (cases "e = e1")
        case True
        with Inr Some show ?thesis by simp
      next
        case False
        with out Cons.prems have "e \<in> set out'" by simp
        from Cons.IH [OF o this] show ?thesis by auto
      qed
    qed
  qed
qed

lemma POST_cases:
  "POST rt req = \<lparr>payload = EventArray [], status = 200\<rparr> \<or>
   (\<exists>out. truthy (body_text req) \<and>
      resolveLines rt (req_refYear rt req) (req_referenceDate rt req) (req_duration req)
        (req_defaultTime req) (input_lines rt (body_text req)) = Inr out \<and>
      POST rt req = \<lparr>payload = EventArray (unique out), status = 200\<rparr>)"
  by (auto simp: POST_def POST_try_def Let_def req_refYear_def req_referenceDate_def
      req_duration_def req_defaultTime_def split: sum.splits)

subsection \<open>The Map of the de-duplication\<close>

lemma map_set_keys:
  "map fst (map_set m k v) = (if k \<in> set (map fst m) then map fst m else map fst m @ [k])"
proof (induction m)
  case Nil
  show ?case by simp
next
  case (Cons a m)
  obtain k' v' where a: "a = (k', v')" by (cases a)
  show ?case
  proof (cases "k' = k")
    case True
    then show ?thesis by (simp add: a)
  next
    case False
    with Cons.IH show ?thesis by (simp add: a)
  qed
qed

lemma map_of_map_set: "map_of (map_set m k v) = (map_of m)(k \<mapsto> v)"
  by (induction m) (auto simp: fun_eq_iff)

lemma new_Map_snoc: "new_Map (es @ [(k, v)]) = map_set (new_Map es) k v"
  by (simp add: new_Map_def)

lemma new_Map_keys: "map fst (new_Map es) = rev (remdups (rev (map fst es)))"
proof (induction es rule: rev_induct)
  case Nil
  show ?case by (simp add: new_Map_def)
next
  case (snoc x es)
  obtain k v where x: "x = (k, v)" by (cases x)
  have "set (map fst (new_Map es)) = set (map fst es)"
    using snoc.IH by simp
  then show ?case
    using snoc.IH by (simp add: x new_Map_snoc map_set_keys)
qed

lemma new_Map_lookup: "map_of (new_Map es) = map_of (rev es)"
proof (induction es rule: rev_induct)
  case Nil
  show ?case by (simp add: new_Map_def)
next
  case (snoc x es)
  obtain k v where x: "x = (k, v)" by (cases x)
  show ?case
    using snoc.IH by (simp add: x new_Map_snoc map_of_map_set fun_eq_iff)
qed

lemma new_Map_distinct: "distinct (map fst (new_Map es))"
  by (simp add: new_Map_keys)

lemma map_of_rev_keyed:
  "map_of (rev (map (\<lambda>e. (f e, e)) xs)) k =
     (if filter (\<lambda>x. f x = k) xs = [] then None else Some (last (filter (\<lambda>x. f x = k) xs)))"
proof (induction xs rule: rev_induct)
  case Nil
  show ?case by simp
next
  case (snoc x xs)
  then show ?case by auto
qed

lemma distinct_values: "distinct (map fst m) \<Longrightarrow> map snd m = map (\<lambda>k. the (map_of m k)) (map fst m)"
proof (induction m)
  case Nil
  show ?case by simp
next
  case (Cons a m)
  obtain k v where a: "a = (k, v)" by (cases a)
  from Cons.prems a have k: "k \<notin> fst ` set m" and d: "distinct (map fst m)" by auto
  from k have "\<forall>k' \<in> set (map fst m). k' \<noteq> k" by auto
  then have "map (\<lambda>k'. the (map_of (a # m) k')) (map fst m) = map (\<lambda>k'. the (map_of m k')) (map fst m)"
    by (auto simp: a)
  with Cons.IH [OF d] show ?case by (simp add: a)
qed

lemma unique_char:
  "unique out = map (\<lambda>k. last (filter (\<lambda>x. dedup_key x = k) out))
     (rev (remdups (rev (map dedup_key out))))"
proof -
  let ?es = "map (\<lambda>e. (dedup_key e, e)) out"
  have keys: "map fst (new_Map ?es) = rev (remdups (rev (map dedup_key out)))"
    by (simp add: new_Map_keys comp_def)
  have "unique out = map (\<lambda>k. the (map_of (new_Map ?es) k)) (map fst (new_Map ?es))"
    unfolding unique_def map_values_def by (rule distinct_values [OF new_Map_distinct])
  also have "\<dots> = map (\<lambda>k. the (map_of (rev ?es) k)) (rev (remdups (rev (map dedup_key out))))"
    by (simp only: new_Map_lookup keys)
  also have "\<dots> = map (\<lambda>k. last (filter (\<lambda>x. dedup_key x = k) out))
      (rev (remdups (rev (map dedup_key out))))"
  proof (rule map_cong [OF refl])
    fix k assume "k \<in> set (rev (remdups (rev (map dedup_key out))))"
    then obtain x where "x \<in> set out" "dedup_key x = k" by auto
    then have "filter (\<lambda>x. dedup_key x = k) out \<noteq> []"
      by (auto simp: filter_empty_conv)
    then show "the (map_of (rev ?es) k) = last (filter (\<lambda>x. dedup_key x = k) out)"
      by (simp add: map_of_rev_keyed)
  qed
  finally show ?thesis .
qed

lemma last_filter_key:
  assumes "x \<in> set out" "dedup_key x = k"
  shows "last (filter (\<lambda>x. dedup_key x = k) out) \<in> set out
    \<and> dedup_key (last (filter (\<lambda>x. dedup_key x = k) out)) = k"
proof -
  from assms have ne: "filter (\<lambda>x. dedup_key x = k) out \<noteq> []"
    by (auto simp: filter_empty_conv)
  from last_in_set [OF ne] show ?thesis by auto
qed

lemma unique_keys: "map dedup_key (unique out) = rev (remdups (rev (map dedup_key out)))"
proof -
  have "map dedup_key (unique out) = map (\<lambda>k. k) (rev (remdups (rev (map dedup_key out))))"
    unfolding unique_char map_map
  proof (rule map_cong [OF refl])
    fix k assume "k \<in> set (rev (remdups (rev (map dedup_key out))))"
    then obtain x where "x \<in> set out" "dedup_key x = k" by auto
    from last_filter_key [OF this]
    show "(dedup_key \<circ> (\<lambda>k. last (filter (\<lambda>x. dedup_key x = k) out))) k = k" by simp
  qed
  then show ?thesis by simp
qed

lemma unique_subset: "set (unique out) \<subseteq> set out"
proof
  fix e assume "e \<in> set (unique out)"
  then obtain k where k: "k \<in> set (map dedup_key out)" and e: "e = last (filter (\<lambda>x. dedup_key x = k) out)"
    unfolding unique_char by auto
  from k obtain x where "x \<in> set out" "dedup_key x = k" by auto
  from last_filter_key [OF this] e show "e \<in> set out" by simp
qed

lemma unique_last:
  assumes "e \<in> set (unique out)"
  shows "e = last (filter (\<lambda>x. dedup_key x = dedup_key e) out)"
proof -
  from assms obtain k where k: "k \<in> set (map dedup_key out)" and e: "e = last (filter (\<lambda>x. dedup_key x = k) out)"
    unfolding unique_char by auto
  from k obtain x where "x \<in> set out" "dedup_key x = k" by auto
  from last_filter_key [OF this] e have "dedup_key e = k" by simp
  with e show ?thesis by simp
qed

lemma split_at_bar:
  assumes "a @ [c] @ b = a' @ [c] @ b'" "c \<notin> set b" "c \<notin> set b'"
  shows "a = a' \<and> b = b'"
proof -
  from assms(1) have "rev (a @ [c] @ b) = rev (a' @ [c] @ b')" by simp
  then have eq: "rev b @ c # rev a = rev b' @ c # rev a'" by simp
  have "takeWhile (\<lambda>x. x \<noteq> c) (rev b @ c # rev a) = rev b"
    using assms(2) by (auto simp: takeWhile_tail takeWhile_eq_all_conv)
  moreover have "takeWhile (\<lambda>x. x \<noteq> c) (rev b' @ c # rev a') = rev b'"
    using assms(3) by (auto simp: takeWhile_tail takeWhile_eq_all_conv)
  ultimately have "rev b = rev b'"
    using eq by simp
  then have "b = b'" by simp
  with assms(1) show ?thesis by simp
qed

lemma dedup_key_pair:
  assumes "124 \<notin> set (start a)" and "124 \<notin> set (start b)"
  shows "dedup_key a = dedup_key b \<longleftrightarrow> title a = title b \<and> start a = start b"
proof
  assume "dedup_key a = dedup_key b"
  then have "title a @ [124] @ start a = title b @ [124] @ start b"
    by (simp add: dedup_key_def)
  from split_at_bar [OF this assms] show "title a = title b \<and> start a = start b" .
next
  assume "title a = title b \<and> start a = start b"
  then show "dedup_key a = dedup_key b" by (simp add: dedup_key_def)
qed

subsection \<open>Events of a response\<close>

lemma POST_event:
  assumes "e \<in> set (events_of (POST rt req))"
  shows "\<exists>r rest. req_results rt req (sourceLine e) = Some (r # rest)
     \<and> resolve rt (req_refYear rt req) (req_duration req) (sourceLine e) r = Inr (Some e)"
proof -
  from POST_cases [of rt req] assms obtain out where
    out: "resolveLines rt (req_refYear rt req) (req_referenceDate rt req) (req_duration req)
        (req_defaultTime req) (input_lines rt (body_text req)) = Inr out"
    and e: "e \<in> set (unique out)"
    by (auto simp: events_of_def)
  from e unique_subset have "e \<in> set out" by blast
  from resolveLines_mem [OF out this] obtain l where
    "processLine rt (req_refYear rt req) (req_referenceDate rt req) (req_duration req)
        (req_defaultTime req) l = Inr (Some e)" by blast
  from processLine_Some [OF this] obtain r rest where
    x: "extraction rt (req_referenceDate rt req) (req_defaultTime req) l = Some (r # rest)"
    and r: "resolve rt (req_refYear rt req) (req_duration req) l r = Inr (Some e)"
    by blast
  from resolve_Some [OF r] have "sourceLine e = l" by blast
  with x r show ?thesis by (auto simp: req_results_def)
qed

lemma minutes_of_default: "minutes_of rt (JNum (Fin 60)) = Fin 60"
  by (simp add: minutes_of_def Number_def)

subsection \<open>Trimming and splitting at a dash\<close>

lemma trim_js_Nil: "trim_js s = [] \<longleftrightarrow> (\<forall>c \<in> set s. is_space c)"
proof
  assume "trim_js s = []"
  then have a: "\<forall>c \<in> set (dropWhile is_space s). is_space c"
    by (simp add: trim_js_def dropWhile_eq_Nil_conv)
  have "dropWhile is_space s = []"
  proof (rule ccontr)
    assume n: "dropWhile is_space s \<noteq> []"
    then have "\<not> is_space (hd (dropWhile is_space s))" by (rule hd_dropWhile)
    moreover from n have "hd (dropWhile is_space s) \<in> set (dropWhile is_space s)" by simp
    ultimately show False using a by blast
  qed
  then show "\<forall>c \<in> set s. is_space c" by (simp add: dropWhile_eq_Nil_conv)
next
  assume "\<forall>c \<in> set s. is_space c"
  then have "\<forall>c \<in> set (dropWhile is_space s). is_space c"
    by (meson set_dropWhileD)
  then show "trim_js s = []" by (simp add: trim_js_def dropWhile_eq_Nil_conv)
qed

lemma trim_js_last: "s \<noteq> [] \<Longrightarrow> \<not> is_space (last s) \<Longrightarrow> trim_js s \<noteq> []"
  using trim_js_Nil [of s] last_in_set [of s] by blast

lemma trim_js_ends: "trim_js s \<noteq> [] \<Longrightarrow> \<not> is_space (last (trim_js s))"
proof -
  assume n: "trim_js s \<noteq> []"
  let ?d = "dropWhile is_space (rev (dropWhile is_space s))"
  from n have d: "?d \<noteq> []" by (simp add: trim_js_def)
  then have "\<not> is_space (hd ?d)" by (rule hd_dropWhile)
  moreover from d have "last (rev ?d) = hd ?d" by (simp add: last_rev)
  ultimately show ?thesis by (simp add: trim_js_def)
qed

lemma dash_match:
  "(p', rest) \<in> set (rxm False dash_rx p s) \<Longrightarrow>
     \<exists>pre. s = pre @ rest \<and> pre \<noteq> [] \<and> is_space (last pre)"
proof -
  assume "(p', rest) \<in> set (rxm False dash_rx p s)"
  then obtain a b c where "s = a # b # c # rest" "is_space c"
    by (auto simp: dash_rx_def seq_def split: list.splits if_splits)
  then have "s = [a, b, c] @ rest \<and> [a, b, c] \<noteq> [] \<and> is_space (last [a, b, c])" by simp
  then show ?thesis by blast
qed

text \<open>The last piece of a split into more than one piece.\<close>

lemma split_loop_last:
  assumes m: "\<forall>p s p' rest. (p', rest) \<in> set (rxm ic r p s) \<longrightarrow>
      (\<exists>pre. s = pre @ rest \<and> pre \<noteq> [] \<and> is_space (last pre))"
  shows "split_loop ic r p cur s = [cur @ s]
     \<or> (1 < length (split_loop ic r p cur s) \<and> s \<noteq> []
        \<and> (if last (split_loop ic r p cur s) = [] then is_space (last s)
            else last (last (split_loop ic r p cur s)) = last s))"
  using m
proof (induction ic r p cur s rule: split_loop.induct)
  case (1 ic r p cur)
  show ?case by simp
next
  case (2 ic r p cur c cs)
  note m = "2.prems"
  let ?skip = "split_loop ic r (Some c) (cur @ [c]) cs"
  have skip: "split_loop ic r p cur (c # cs) = ?skip \<Longrightarrow>
      ?skip = [(cur @ [c]) @ cs] \<or> (1 < length ?skip \<and> cs \<noteq> []
        \<and> (if last ?skip = [] then is_space (last cs) else last (last ?skip) = last cs))
      \<Longrightarrow> ?case"
    by auto
  show ?case
  proof (cases "rxm ic r p (c # cs)")
    case Nil
    then have "split_loop ic r p cur (c # cs) = ?skip" by simp
    moreover from "2.IH"(1) [OF Nil m]
    have "?skip = [(cur @ [c]) @ cs] \<or> (1 < length ?skip \<and> cs \<noteq> []
        \<and> (if last ?skip = [] then is_space (last cs) else last (last ?skip) = last cs))"
      by blast
    ultimately show ?thesis by (rule skip)
  next
    case (Cons x xs)
    obtain p' rest where x: "(p', rest) = x" by (cases x) auto
    show ?thesis
    proof (cases "length rest = Suc (length cs) \<and> cur = []")
      case True
      with Cons x have "split_loop ic r p cur (c # cs) = ?skip" by auto
      moreover from "2.IH"(2) [OF Cons x True m]
      have "?skip = [(cur @ [c]) @ cs] \<or> (1 < length ?skip \<and> cs \<noteq> []
        \<and> (if last ?skip = [] then is_space (last cs) else last (last ?skip) = last cs))"
        by blast
      ultimately show ?thesis by (rule skip)
    next
      case False
      let ?res = "split_loop ic r p' [] rest"
      from Cons x False have eq: "split_loop ic r p cur (c # cs) = cur # ?res" by auto
      from Cons x have "(p', rest) \<in> set (rxm ic r p (c # cs))" by auto
      with m obtain pre where pre: "c # cs = pre @ rest" "pre \<noteq> []" "is_space (last pre)"
        by blast
      from "2.IH"(3) [OF Cons x False m]
      have ih: "?res = [Nil @ rest] \<or> (1 < length ?res \<and> rest \<noteq> []
        \<and> (if last ?res = [] then is_space (last rest) else last (last ?res) = last rest))"
        by blast
      then have ne: "?res \<noteq> []" by auto
      from ih show ?thesis
      proof
        assume one: "?res = [Nil @ rest]"
        show ?thesis
        proof (cases "rest = []")
          case True
          with one pre eq show ?thesis by auto
        next
          case False
          with pre have "last (c # cs) = last rest" by (metis last_appendR)
          with one eq False show ?thesis by auto
        qed
      next
        assume more: "1 < length ?res \<and> rest \<noteq> []
          \<and> (if last ?res = [] then is_space (last rest) else last (last ?res) = last rest)"
        with pre have "last (c # cs) = last rest" by (metis last_appendR)
        with more eq ne show ?thesis by auto
      qed
    qed
  qed
qed

lemma join_js_last:
  "xs \<noteq> [] \<Longrightarrow> last xs \<noteq> [] \<Longrightarrow> join_js sep xs \<noteq> [] \<and> last (join_js sep xs) = last (last xs)"
  by (induction sep xs rule: join_js.induct) auto

lemma extractTitle_last:
  assumes "line \<noteq> []" and "\<not> is_space (last line)"
  shows "extractTitle line \<noteq> []"
proof (cases "1 < length (split_js False dash_rx line)")
  case True
  let ?parts = "split_loop False dash_rx None [] line"
  from assms(1) have parts: "split_js False dash_rx line = ?parts" by (simp add: split_js_def)
  from dash_match have "\<forall>p s p' rest. (p', rest) \<in> set (rxm False dash_rx p s) \<longrightarrow>
      (\<exists>pre. s = pre @ rest \<and> pre \<noteq> [] \<and> is_space (last pre))" by blast
  from split_loop_last [OF this, of None "[]" line]
  have "?parts = [Nil @ line] \<or> (1 < length ?parts \<and> line \<noteq> []
        \<and> (if last ?parts = [] then is_space (last line) else last (last ?parts) = last line))"
    by blast
  with True parts assms(2) have l: "last ?parts \<noteq> []" "last (last ?parts) = last line"
    by (auto split: if_splits)
  from True parts have d: "drop 1 ?parts \<noteq> []" "last (drop 1 ?parts) = last ?parts"
    by auto
  from join_js_last [of "drop 1 ?parts" "js '' - ''"] d l
  have "join_js (js '' - '') (drop 1 ?parts) \<noteq> []"
    "last (join_js (js '' - '') (drop 1 ?parts)) = last line"
    by auto
  with assms(2) have "trim_js (join_js (js '' - '') (drop 1 ?parts)) \<noteq> []"
    by (simp add: trim_js_last)
  with True parts show ?thesis by (simp add: extractTitle_def)
next
  case False
  from assms have "trim_js line \<noteq> []" by (rule trim_js_last)
  with False show ?thesis by (simp add: extractTitle_def Let_def)
qed

lemma input_lines_trimmed:
  assumes "l \<in> set (input_lines rt v)"
  shows "l \<noteq> [] \<and> \<not> is_space (last l)"
proof -
  from assms obtain x where "l = trim_js x" "l \<noteq> []"
    by (auto simp: input_lines_def)
  with trim_js_ends [of x] show ?thesis by simp
qed

section \<open>Evaluation of the examples\<close>

text \<open>
  The examples are evaluated by rewriting with the definitions. Under
  \<open>let_weak_cong\<close> a \<open>let\<close> is unfolded only once its bound value is computed.
\<close>

lemmas rx_eval = js_def rx_test_def seq_def alt_def words_def is_digit_def is_word_def is_lower_def
  is_upper_def is_space_def fold_case_def word_before_def word_after_def last_of_def
  digits12_def month_names_def ampm_def clock_rx_def

lemmas utc_eval = utc_toISOString_def utc_setFullYear_def utc_fields_def
  civil_from_days_def days_from_civil_def msPerDay_def zpad_def newDate_def getTime_def
  trunc_def is_int_def fl_def utc_newDateYMD_def utc_NumberToString_def utc_StringToNumber_def
  utc_get_def utc_addDays_def
  utc_year_def utc_month_def utc_day_def utc_hours_def utc_minutes_def

lemmas title_eval = extractTitle_def strip_tokens_def split_js_def trim_js_def dash_rx_def
  weekday_rx_def month_day_rx_def lead_slash_rx_def time_range_rx_def single_time_rx_def
  replace_empty_def

lemmas filter_eval = input_lines_def String_def split_js_def newline_rx_def trim_js_def
  isDatey_def utc_toLowerCase_def HINTS_def slash_date_rx_def month_name_rx_def due_rx_def
  exam_rx_def number_rx_def

lemmas line_defs = line_hw1_def line_midterm_def line_final_def line_range_def line_quiz_def
  line_dup_a_def line_dup_b_def line_hw2_def line_hw2_retry_def

lemmas resolve_eval = processLine_def resolve_def emit_def force_year_def isCertain_def
  isValid_def newDate_def getTime_def trunc_def is_int_def fl_def timed_def

lemma replicate_numeral_eval: "replicate (numeral k) x = x # replicate (numeral k - 1) x"
  by (simp add: numeral_eq_Suc)

lemma js_not_Nil: "js (c # cs) \<noteq> []"
  by (simp add: js_def)

lemma utc_runtime_fields:
  "chrono_parse (utc_runtime ex clock) = ex"
  "toLowerCase (utc_runtime ex clock) = utc_toLowerCase"
  "StringToNumber (utc_runtime ex clock) = utc_StringToNumber"
  "NumberToString (utc_runtime ex clock) = utc_NumberToString"
  "newDateYMD (utc_runtime ex clock) = utc_newDateYMD"
  "setFullYear (utc_runtime ex clock) = utc_setFullYear"
  "toISOString (utc_runtime ex clock) = utc_toISOString"
  "getFullYear (utc_runtime ex clock) = utc_get utc_year"
  "getMonth (utc_runtime ex clock) = utc_get utc_month"
  "getDate (utc_runtime ex clock) = utc_get utc_day"
  "getHours (utc_runtime ex clock) = utc_get utc_hours"
  "getMinutes (utc_runtime ex clock) = utc_get utc_minutes"
  "addDays (utc_runtime ex clock) = utc_addDays"
  "now (utc_runtime ex clock) = clock"
  "roundDouble (utc_runtime ex clock) = Fin"
  by (simp_all add: utc_runtime_def)

lemmas runtime_fields =
  utc_runtime_fields [of "table_parse example_table" "Time 0", folded example_runtime_def]
  utc_runtime_fields [of "table_parse ((line_hw2, [res_hw2_noon]) # example_table)" "Time 0",
    folded slash_runtime_def]
  utc_runtime_fields [of "\<lambda>text referenceDate. None" "Time 0", folded faulty_runtime_def]

lemma example_lines:
  "toLowerCase rt = utc_toLowerCase \<Longrightarrow>
     input_lines rt (JStr batch_text) = [line_hw1, line_midterm, line_final]"
  "toLowerCase rt = utc_toLowerCase \<Longrightarrow> input_lines rt (JStr dup_text) = [line_dup_a, line_dup_b]"
  "toLowerCase rt = utc_toLowerCase \<Longrightarrow> input_lines rt (JStr line_range) = [line_range]"
  "toLowerCase rt = utc_toLowerCase \<Longrightarrow> input_lines rt (JStr line_final) = [line_final]"
  "toLowerCase rt = utc_toLowerCase \<Longrightarrow> input_lines rt (JStr line_hw2) = [line_hw2]"
  by (simp_all add: batch_text_def dup_text_def line_defs filter_eval rx_eval)

lemma example_lookup:
  "table_parse example_table line_hw1 ref = Some [res_hw1]"
  "table_parse example_table line_midterm ref = Some [res_midterm]"
  "table_parse example_table line_final ref = Some [res_final]"
  "table_parse example_table line_range ref = Some [res_range]"
  "table_parse example_table line_quiz ref = Some [res_quiz]"
  "table_parse example_table line_dup_a ref = Some [res_hw1]"
  "table_parse example_table line_dup_b ref = Some [res_hw1]"
  "table_parse example_table line_hw2 ref = Some []"
  "table_parse example_table line_hw2_retry ref = Some [res_hw2_2359]"
  "table_parse ((line_hw2, [res_hw2_noon]) # example_table) line_hw2 ref = Some [res_hw2_noon]"
  by (simp_all add: table_parse_def example_table_def line_defs js_def)

lemma example_flags:
  "isDeadline line_hw1" "hasTimeToken line_hw1"
  "\<not> isDeadline line_midterm" "hasTimeToken line_midterm"
  "\<not> isDeadline line_final" "\<not> hasTimeToken line_final"
  "\<not> isDeadline line_range"
  "isDeadline line_dup_a" "hasTimeToken line_dup_a"
  "isDeadline line_dup_b" "hasTimeToken line_dup_b"
  "isDeadline line_hw2" "\<not> hasTimeToken line_hw2"
  by (simp_all add: isDeadline_def hasTimeToken_def due_rx_def time_token_rx_def
      line_defs rx_eval)

lemma example_titles:
  "extractTitle line_hw1 = js ''HW 1 due''"
  "extractTitle line_midterm = js ''Midterm''"
  "extractTitle line_final = js ''Final exam Dec 12''"
  "extractTitle line_range = js ''Midterm''"
  "extractTitle line_dup_a = js ''HW 1 due''"
  "extractTitle line_dup_b = js ''HW 1 due''"
  "extractTitle line_hw2 = line_hw2"
  by (simp_all add: line_defs title_eval rx_eval Let_def)

lemma example_years:
  "utc_setFullYear (Time 1759449540000) (Fin 2025) = Time 1759449540000"
  "utc_setFullYear (Time 1759757400000) (Fin 2025) = Time 1759757400000"
  "utc_setFullYear (Time 1765540800000) (Fin 2025) = Time 1765540800000"
  "utc_setFullYear (Time 1760054340000) (Fin 2025) = Time 1760054340000"
  "utc_setFullYear (Time 1760011200000) (Fin 2025) = Time 1760011200000"
  by (simp_all add: utc_eval Let_def cong: let_weak_cong)

lemma example_iso:
  "utc_toISOString 1759449540000 = js ''2025-10-02T23:59:00.000Z''"
  "utc_toISOString 1759757400000 = js ''2025-10-06T13:30:00.000Z''"
  "utc_toISOString 1759761000000 = js ''2025-10-06T14:30:00.000Z''"
  "utc_toISOString 1759757490000 = js ''2025-10-06T13:31:30.000Z''"
  "utc_toISOString 1765540800000 = js ''2025-12-12T12:00:00.000Z''"
  "utc_toISOString 1760054340000 = js ''2025-10-09T23:59:00.000Z''"
  "utc_toISOString 1760011200000 = js ''2025-10-09T12:00:00.000Z''"
  by (simp_all add: utc_eval js_def Let_def replicate_numeral_eval cong: let_weak_cong)

lemma example_extraction:
  "extraction example_runtime ref dt line_hw1 = Some [res_hw1]"
  "extraction example_runtime ref dt line_midterm = Some [res_midterm]"
  "extraction example_runtime ref dt line_final = Some [res_final]"
  "extraction example_runtime ref dt line_range = Some [res_range]"
  "extraction example_runtime ref dt line_quiz = Some [res_quiz]"
  "extraction example_runtime ref dt line_dup_a = Some [res_hw1]"
  "extraction example_runtime ref dt line_dup_b = Some [res_hw1]"
  "extraction slash_runtime ref dt line_hw2 = Some [res_hw2_noon]"
  "extraction faulty_runtime ref dt line_final = None"
  by (simp_all add: extraction_def runtime_fields example_lookup)

lemma line_hw2_not_Nil: "line_hw2 \<noteq> []"
  by (simp add: line_hw2_def js_def)

lemma example_processLine:
  "processLine example_runtime (Fin 2025) ref dur dt line_hw1 = Inr (Some ev_hw1)"
  "minutes_of example_runtime dur = Fin 60 \<Longrightarrow>
     processLine example_runtime (Fin 2025) ref dur dt line_midterm = Inr (Some ev_midterm)"
  "processLine example_runtime (Fin 2025) ref dur dt line_final = Inr (Some ev_final)"
  "processLine example_runtime (Fin 2025) ref dur dt line_range = Inr (Some ev_range)"
  "processLine example_runtime (Fin 2025) ref dur dt line_quiz = Inr None"
  "processLine example_runtime (Fin 2025) ref dur dt line_dup_a = Inr (Some ev_dup_a)"
  "processLine example_runtime (Fin 2025) ref dur dt line_dup_b = Inr (Some ev_dup_b)"
  "minutes_of example_runtime dur = Fin (3 / 2) \<Longrightarrow>
     processLine example_runtime (Fin 2025) ref dur dt line_midterm = Inr (Some ev_midterm_short)"
  "processLine slash_runtime (Fin 2025) ref dur dt line_hw2 = Inr (Some ev_hw2_allday)"
  "processLine faulty_runtime (Fin 2025) ref dur dt line_final = Inl ExtractionFault"
  by (simp_all add: resolve_eval example_extraction example_flags example_titles
      res_hw1_def res_midterm_def res_final_def res_range_def res_quiz_def
      res_hw2_noon_def ev_hw1_def ev_midterm_def ev_midterm_short_def ev_final_def ev_range_def
      ev_dup_a_def ev_dup_b_def ev_hw2_allday_def
      runtime_fields example_years example_iso js_not_Nil line_hw2_not_Nil Let_def)

lemma unique_single: "unique [e] = [e]"
  by (simp add: unique_def new_Map_def map_values_def)

lemma example_unique:
  "unique [ev_hw1, ev_midterm, ev_final] = [ev_hw1, ev_midterm, ev_final]"
  "unique [ev_hw1, ev_midterm_short, ev_final] = [ev_hw1, ev_midterm_short, ev_final]"
  "unique [ev_dup_a, ev_dup_b] = [ev_dup_b]"
  by (simp_all add: unique_def new_Map_def map_values_def dedup_key_def ev_hw1_def ev_midterm_def
      ev_midterm_short_def ev_final_def ev_dup_a_def ev_dup_b_def js_def)

lemma POST_of_lines:
  assumes "truthy (body_text req)"
  shows "POST_try rt req =
     (case resolveLines rt (req_refYear rt req) (req_referenceDate rt req) (req_duration req)
            (req_defaultTime req) (input_lines rt (body_text req)) of
        Inl x \<Rightarrow> Inl x
      | Inr out \<Rightarrow> Inr \<lparr>payload = EventArray (unique out), status = 200\<rparr>)"
  using assms
  by (simp add: POST_try_def Let_def req_refYear_def req_referenceDate_def req_duration_def
      req_defaultTime_def)

lemma example_request_fields:
  "body_text (example_request text dur) = JStr text"
  "req_refYear rt (example_request text dur) = Fin 2025"
  "req_duration (example_request text dur) = default_to dur (JNum (Fin 60))"
  "req_defaultTime (example_request text dur) = JStr (js ''23:59'')"
  "body_defaultDurationMinutes (example_request text dur) = dur"
  by (simp_all add: example_request_def req_refYear_def req_duration_def req_defaultTime_def
      refYear_of_def Number_def isFinite_def default_to_def)

lemma example_truthy:
  "truthy (JStr batch_text)" "truthy (JStr dup_text)" "truthy (JStr line_range)"
  "truthy (JStr line_final)" "truthy (JStr line_hw2)"
  by (simp_all add: truthy_def batch_text_def dup_text_def line_defs js_def)

lemma example_minutes:
  "minutes_of rt (default_to JUndefined (JNum (Fin 60))) = Fin 60"
  "minutes_of rt (default_to (JNum (Fin 0)) (JNum (Fin 60))) = Fin 60"
  "minutes_of rt (default_to (JNum (Fin (3 / 2))) (JNum (Fin 60))) = Fin (3 / 2)"
  by (simp_all add: minutes_of_def default_to_def Number_def)

lemma example_POST:
  "minutes_of example_runtime (default_to dur (JNum (Fin 60))) = Fin 60 \<Longrightarrow>
     POST example_runtime (example_request batch_text dur)
       = \<lparr>payload = EventArray [ev_hw1, ev_midterm, ev_final], status = 200\<rparr>"
  "minutes_of example_runtime (default_to dur (JNum (Fin 60))) = Fin (3 / 2) \<Longrightarrow>
     POST example_runtime (example_request batch_text dur)
       = \<lparr>payload = EventArray [ev_hw1, ev_midterm_short, ev_final], status = 200\<rparr>"
  "POST example_runtime (example_request dup_text dur)
     = \<lparr>payload = EventArray [ev_dup_b], status = 200\<rparr>"
  "POST example_runtime (example_request line_range dur)
     = \<lparr>payload = EventArray [ev_range], status = 200\<rparr>"
  "POST slash_runtime (example_request line_hw2 dur)
     = \<lparr>payload = EventArray [ev_hw2_allday], status = 200\<rparr>"
  "POST_try faulty_runtime (example_request line_final dur) = Inl ExtractionFault"
  by (simp_all add: POST_def POST_of_lines example_request_fields example_truthy
      example_lines runtime_fields example_processLine example_unique unique_single)

lemma hw2_lines:
  "toLowerCase rt line_hw2 = js ''hw2 due 10/9'' \<Longrightarrow> input_lines rt (JStr line_hw2) = [line_hw2]"
  by (simp add: line_defs input_lines_def String_def split_js_def newline_rx_def trim_js_def
      isDatey_def HINTS_def slash_date_rx_def month_name_rx_def due_rx_def
      exam_rx_def number_rx_def rx_eval)

lemma event_lines_in_makeICS:
  assumes "i < length events"
  shows "set (event_lines rt (fmtDateTime rt (now rt)) (events ! i) i)
     \<subseteq> set (makeICS_lines rt events calendarName)"
proof -
  from assms have "(events ! i, i) \<in> set (zip events [0..<length events])"
    by (auto simp: set_zip)
  then show ?thesis
    by (auto simp: makeICS_lines_def Let_def)
qed

lemma example_dates:
  "fmtDate example_runtime (Time 1760054400000) = js ''20251010''"
  "fmtDate example_runtime (addDays example_runtime (Time 1759622400000) 1) = js ''20251006''"
  "fmtDate example_runtime (addDays example_runtime (Time 1760054400000) 1) = js ''20251011''"
  "fmtDateTime example_runtime (Time 0) = js ''19700101T000000''"
  by (simp_all add: fmtDate_def fmtDateTime_def pad_def runtime_fields utc_eval js_def Let_def
      replicate_numeral_eval cong: let_weak_cong)

section \<open>The claims\<close>

subsection \<open>C1: de-duplication by title and start\<close>

text \<open>
  Claim C1 says that of several lines with the same title and start the first one, in
  input order, is kept, its \<open>sourceLine\<close> included. The route builds a \<open>Map\<close> from
  the pairs of key and event: a later pair with a key that is present replaces the
  event and leaves the key where it is. Of two lines with the same title and start
  the event of the second one is in the response.
\<close>

theorem dedup_first_occurrence_counterexample:
  "input_lines example_runtime (JStr dup_text) = [line_dup_a, line_dup_b]
   \<and> title ev_dup_a = title ev_dup_b \<and> start ev_dup_a = start ev_dup_b
   \<and> sourceLine ev_dup_a = line_dup_a \<and> sourceLine ev_dup_b = line_dup_b
   \<and> line_dup_a \<noteq> line_dup_b
   \<and> unique [ev_dup_a, ev_dup_b] = [ev_dup_b]
   \<and> POST example_runtime (example_request dup_text JUndefined)
      = \<lparr>payload = EventArray [ev_dup_b], status = 200\<rparr>
   \<and> POST example_runtime (example_request dup_text JUndefined)
      \<noteq> \<lparr>payload = EventArray [ev_dup_a], status = 200\<rparr>"
  by (simp add: example_lines runtime_fields example_unique example_POST)
    (simp add: ev_dup_a_def ev_dup_b_def line_defs js_def)

text \<open>
  C1 as amended: the response holds the resolved events of the lines, in line order,
  put through the \<open>Map\<close>. After that exactly one event survives per distinct key
  \<open>title|start\<close>, and the key determines the pair of title and start, since an ISO
  start has no vertical bar. The survivors stand in the order in which their keys
  first occur; the event that survives for a key is its last occurrence in input
  order, with the \<open>sourceLine\<close> of that occurrence, and every earlier occurrence is
  discarded.
\<close>

theorem dedup_keeps_last_occurrence:
  assumes "truthy (body_text req)"
    and "resolveLines rt (req_refYear rt req) (req_referenceDate rt req) (req_duration req)
        (req_defaultTime req) (input_lines rt (body_text req)) = Inr out"
  shows "events_of (POST rt req) = unique out
   \<and> distinct (map dedup_key (unique out))
   \<and> dedup_key ` set (unique out) = dedup_key ` set out
   \<and> (\<forall>e \<in> set (unique out). e = last (filter (\<lambda>x. dedup_key x = dedup_key e) out))
   \<and> map dedup_key (unique out) = rev (remdups (rev (map dedup_key out)))
   \<and> (\<forall>a b. 124 \<notin> set (start a) \<and> 124 \<notin> set (start b) \<longrightarrow>
         (dedup_key a = dedup_key b \<longleftrightarrow> title a = title b \<and> start a = start b))"
proof (intro conjI)
  show "events_of (POST rt req) = unique out"
    using assms by (simp add: POST_def POST_of_lines events_of_def)
  show "distinct (map dedup_key (unique out))" by (simp add: unique_keys)
  have "set (map dedup_key (unique out)) = set (map dedup_key out)" by (simp add: unique_keys)
  then show "dedup_key ` set (unique out) = dedup_key ` set out" by simp
  show "\<forall>e \<in> set (unique out). e = last (filter (\<lambda>x. dedup_key x = dedup_key e) out)"
    using unique_last by blast
  show "map dedup_key (unique out) = rev (remdups (rev (map dedup_key out)))"
    by (rule unique_keys)
  show "\<forall>a b. 124 \<notin> set (start a) \<and> 124 \<notin> set (start b) \<longrightarrow>
         (dedup_key a = dedup_key b \<longleftrightarrow> title a = title b \<and> start a = start b)"
    using dedup_key_pair by blast
qed

theorem dedup_keeps_last_occurrence_witness:
  "truthy (body_text (example_request dup_text JUndefined))
   \<and> resolveLines example_runtime (req_refYear example_runtime (example_request dup_text JUndefined))
        (req_referenceDate example_runtime (example_request dup_text JUndefined))
        (req_duration (example_request dup_text JUndefined))
        (req_defaultTime (example_request dup_text JUndefined))
        (input_lines example_runtime (body_text (example_request dup_text JUndefined)))
      = Inr [ev_dup_a, ev_dup_b]
   \<and> events_of (POST example_runtime (example_request dup_text JUndefined))
      = unique [ev_dup_a, ev_dup_b]
   \<and> ev_dup_b \<in> set (unique [ev_dup_a, ev_dup_b])
   \<and> ev_dup_b = last (filter (\<lambda>x. dedup_key x = dedup_key ev_dup_b) [ev_dup_a, ev_dup_b])
   \<and> 124 \<notin> set (start ev_dup_a) \<and> 124 \<notin> set (start ev_dup_b)
   \<and> (dedup_key ev_dup_a = dedup_key ev_dup_b
        \<longleftrightarrow> title ev_dup_a = title ev_dup_b \<and> start ev_dup_a = start ev_dup_b)"
proof -
  let ?req = "example_request dup_text JUndefined"
  have t: "truthy (body_text ?req)"
    by (simp add: example_request_fields example_truthy)
  have r: "resolveLines example_runtime (req_refYear example_runtime ?req)
        (req_referenceDate example_runtime ?req) (req_duration ?req) (req_defaultTime ?req)
        (input_lines example_runtime (body_text ?req)) = Inr [ev_dup_a, ev_dup_b]"
    by (simp add: example_request_fields example_lines runtime_fields example_processLine)
  have b: "124 \<notin> set (start ev_dup_a)" "124 \<notin> set (start ev_dup_b)"
    by (simp_all add: ev_dup_a_def ev_dup_b_def js_def)
  have m: "ev_dup_b \<in> set (unique [ev_dup_a, ev_dup_b])"
    by (simp add: example_unique)
  from dedup_keeps_last_occurrence [OF t r] t r m b
  show ?thesis by blast
qed

subsection \<open>C2: the end of a timed line without a range\<close>

text \<open>
  Claim C2 says that a timed line without a range gets no end when it is a deadline
  and the end start plus \<open>defaultDurationMinutes\<close> otherwise. The route computes
  the minutes as \<open>Number(defaultDurationMinutes) || 60\<close>: for the request value 0
  the timed line "Oct 6 1:30 pm Midterm" ends 60 minutes after its start, not at its
  start.
\<close>

theorem explicit_zero_duration_counterexample:
  "body_defaultDurationMinutes (example_request batch_text (JNum (Fin 0))) = JNum (Fin 0)
   \<and> POST example_runtime (example_request batch_text (JNum (Fin 0)))
      = \<lparr>payload = EventArray [ev_hw1, ev_midterm, ev_final], status = 200\<rparr>
   \<and> sourceLine ev_midterm = line_midterm
   \<and> \<not> isDeadline line_midterm \<and> hasTimeToken line_midterm
   \<and> req_results example_runtime (example_request batch_text (JNum (Fin 0))) line_midterm
      = Some [res_midterm]
   \<and> pend res_midterm = None
   \<and> start ev_midterm = toISOString example_runtime 1759757400000
   \<and> end' ev_midterm = Some (toISOString example_runtime (1759757400000 + 60 * 60 * 1000))
   \<and> end' ev_midterm \<noteq> Some (toISOString example_runtime (1759757400000 + 0 * 60 * 1000))"
  by (simp add: example_request_fields example_minutes example_POST example_flags
      req_results_def example_extraction)
    (simp add: ev_midterm_def res_midterm_def runtime_fields example_iso js_def)

text \<open>
  C2 as amended: for every event of the response whose line has a time and no range,
  the end is absent when the line is a deadline. When the line is not a deadline the end
  is the instant \<open>new Date(start.getTime() + minutes * 60 * 1000)\<close>, where \<open>minutes\<close> is
  60 when \<open>defaultDurationMinutes\<close> is absent and is \<open>Number(defaultDurationMinutes)\<close>
  when that is a number other than zero, whole or fractional. The sum is in the arithmetic
  of doubles; it is exactly the start plus the minutes whenever the minutes make a whole
  number of seconds and are at most 6e9 in magnitude, as every whole number of minutes
  up to that bound does, and 1.5. Start and end are the ISO strings of the instants.
\<close>

theorem end_policy_without_range:
  assumes "e \<in> set (events_of (POST rt req))"
  shows "\<exists>r rest rs t. req_results rt req (sourceLine e) = Some (r # rest) \<and> pstart r = Some rs
     \<and> force_year rt (req_refYear rt req) rs = Time t \<and> start e = toISOString rt t
     \<and> (pend r = None
          \<and> (isCertain rs Hour \<or> isCertain rs Minute \<or> hasTimeToken (sourceLine e))
          \<and> isDeadline (sourceLine e)
         \<longrightarrow> end' e = None)
     \<and> (pend r = None
          \<and> (isCertain rs Hour \<or> isCertain rs Minute \<or> hasTimeToken (sourceLine e))
          \<and> \<not> isDeadline (sourceLine e)
         \<longrightarrow> (\<exists>m u. m = minutes_of rt (req_duration req)
                \<and> (body_defaultDurationMinutes req = JUndefined \<longrightarrow> m = Fin 60)
                \<and> (Number rt (body_defaultDurationMinutes req) \<noteq> NaN
                     \<and> Number rt (body_defaultDurationMinutes req) \<noteq> Fin 0
                    \<longrightarrow> m = Number rt (body_defaultDurationMinutes req))
                \<and> newDate (num_add rt (getTime (Time t)) (num_times rt (num_times rt m 60) 1000))
                    = Time u
                \<and> end' e = Some (toISOString rt u)
                \<and> (\<forall>q. m = Fin q \<and> is_int (q * 60) \<and> \<bar>q\<bar> \<le> 6000000000
                      \<longrightarrow> end' e = Some (toISOString rt (t + \<lfloor>q * 60000\<rfloor>)))
                \<and> (\<forall>n. m = Fin (of_int n) \<and> \<bar>n\<bar> \<le> 6000000000
                      \<longrightarrow> end' e = Some (toISOString rt (t + n * 60 * 1000)))))"
proof -
  from POST_event [OF assms] obtain r rest where
    x: "req_results rt req (sourceLine e) = Some (r # rest)"
    and r: "resolve rt (req_refYear rt req) (req_duration req) (sourceLine e) r = Inr (Some e)"
    by blast
  from resolve_Some [OF r] obtain rs t where rs: "pstart r = Some rs"
    and t: "force_year rt (req_refYear rt req) rs = Time t" "start e = toISOString rt t"
    and dl: "pend r = None \<and> (\<not> (isCertain rs Hour \<or> isCertain rs Minute
        \<or> hasTimeToken (sourceLine e)) \<or> isDeadline (sourceLine e)) \<longrightarrow> end' e = None"
    and tm: "pend r = None \<and> (isCertain rs Hour \<or> isCertain rs Minute
        \<or> hasTimeToken (sourceLine e)) \<and> \<not> isDeadline (sourceLine e)
        \<longrightarrow> (\<exists>u. newDate (num_add rt (getTime (Time t))
                  (num_times rt (num_times rt (minutes_of rt (req_duration req)) 60) 1000)) = Time u
              \<and> end' e = Some (toISOString rt u))"
    by blast
  define m where "m = minutes_of rt (req_duration req)"
  have m1: "body_defaultDurationMinutes req = JUndefined \<longrightarrow> m = Fin 60"
    by (simp add: m_def req_duration_def default_to_def minutes_of_default)
  have m2: "Number rt (body_defaultDurationMinutes req) \<noteq> NaN
      \<and> Number rt (body_defaultDurationMinutes req) \<noteq> Fin 0
     \<longrightarrow> m = Number rt (body_defaultDurationMinutes req)"
    by (auto simp: m_def req_duration_def default_to_def minutes_of_def Number_def)
  have ex: "end' e = Some (toISOString rt (t + \<lfloor>q * 60000\<rfloor>))"
    if u: "newDate (num_add rt (getTime (Time t)) (num_times rt (num_times rt m 60) 1000)) = Time u"
      "end' e = Some (toISOString rt u)"
      and q: "m = Fin q" "is_int (q * 60)" "\<bar>q\<bar> \<le> 6000000000" for u q
    using timed_end_exact [of rt t q u] u q by simp
  have whole: "end' e = Some (toISOString rt (t + n * 60 * 1000))"
    if u: "newDate (num_add rt (getTime (Time t)) (num_times rt (num_times rt m 60) 1000)) = Time u"
      "end' e = Some (toISOString rt u)"
      and n: "m = Fin (of_int n)" "\<bar>n\<bar> \<le> 6000000000" for u n
  proof -
    have i: "is_int (of_int n * 60)"
    proof -
      have "of_int n * 60 = (of_int (n * 60) :: rat)" by simp
      then show ?thesis unfolding is_int_def by (simp only: floor_of_int)
    qed
    from n(2) have "\<bar>of_int n :: rat\<bar> \<le> of_int 6000000000"
      unfolding of_int_abs [symmetric] by (rule of_int_le_iff [THEN iffD2])
    then have b: "\<bar>of_int n :: rat\<bar> \<le> 6000000000" by simp
    have "of_int n * 60000 = (of_int (n * 60000) :: rat)" by simp
    then have f: "\<lfloor>of_int n * 60000 :: rat\<rfloor> = n * 60000" by (simp only: floor_of_int)
    from ex [OF u n(1) i b] f show ?thesis by (simp add: mult.commute)
  qed
  have "pend r = None
          \<and> (isCertain rs Hour \<or> isCertain rs Minute \<or> hasTimeToken (sourceLine e))
          \<and> \<not> isDeadline (sourceLine e)
         \<longrightarrow> (\<exists>m u. m = minutes_of rt (req_duration req)
                \<and> (body_defaultDurationMinutes req = JUndefined \<longrightarrow> m = Fin 60)
                \<and> (Number rt (body_defaultDurationMinutes req) \<noteq> NaN
                     \<and> Number rt (body_defaultDurationMinutes req) \<noteq> Fin 0
                    \<longrightarrow> m = Number rt (body_defaultDurationMinutes req))
                \<and> newDate (num_add rt (getTime (Time t)) (num_times rt (num_times rt m 60) 1000))
                    = Time u
                \<and> end' e = Some (toISOString rt u)
                \<and> (\<forall>q. m = Fin q \<and> is_int (q * 60) \<and> \<bar>q\<bar> \<le> 6000000000
                      \<longrightarrow> end' e = Some (toISOString rt (t + \<lfloor>q * 60000\<rfloor>)))
                \<and> (\<forall>n. m = Fin (of_int n) \<and> \<bar>n\<bar> \<le> 6000000000
                      \<longrightarrow> end' e = Some (toISOString rt (t + n * 60 * 1000))))"
  proof (intro impI)
    assume a: "pend r = None
          \<and> (isCertain rs Hour \<or> isCertain rs Minute \<or> hasTimeToken (sourceLine e))
          \<and> \<not> isDeadline (sourceLine e)"
    with tm obtain u where
      u: "newDate (num_add rt (getTime (Time t)) (num_times rt (num_times rt m 60) 1000)) = Time u"
        "end' e = Some (toISOString rt u)"
      unfolding m_def by blast
    from m1 m2 u ex [OF u] whole [OF u] show "\<exists>m u. m = minutes_of rt (req_duration req)
                \<and> (body_defaultDurationMinutes req = JUndefined \<longrightarrow> m = Fin 60)
                \<and> (Number rt (body_defaultDurationMinutes req) \<noteq> NaN
                     \<and> Number rt (body_defaultDurationMinutes req) \<noteq> Fin 0
                    \<longrightarrow> m = Number rt (body_defaultDurationMinutes req))
                \<and> newDate (num_add rt (getTime (Time t)) (num_times rt (num_times rt m 60) 1000))
                    = Time u
                \<and> end' e = Some (toISOString rt u)
                \<and> (\<forall>q. m = Fin q \<and> is_int (q * 60) \<and> \<bar>q\<bar> \<le> 6000000000
                      \<longrightarrow> end' e = Some (toISOString rt (t + \<lfloor>q * 60000\<rfloor>)))
                \<and> (\<forall>n. m = Fin (of_int n) \<and> \<bar>n\<bar> \<le> 6000000000
                      \<longrightarrow> end' e = Some (toISOString rt (t + n * 60 * 1000)))"
      unfolding m_def [symmetric]
      by (intro exI [of _ m] exI [of _ u]) (simp add: m_def)
  qed
  with x rs t dl show ?thesis by blast
qed

theorem end_policy_without_range_witness:
  "ev_midterm_short \<in> set (events_of (POST example_runtime
        (example_request batch_text (JNum (Fin (3 / 2))))))
   \<and> req_results example_runtime (example_request batch_text (JNum (Fin (3 / 2))))
        (sourceLine ev_midterm_short) = Some [res_midterm]
   \<and> pend res_midterm = None
   \<and> hasTimeToken (sourceLine ev_midterm_short) \<and> \<not> isDeadline (sourceLine ev_midterm_short)
   \<and> Number example_runtime
        (body_defaultDurationMinutes (example_request batch_text (JNum (Fin (3 / 2))))) = Fin (3 / 2)
   \<and> is_int (3 / 2 * 60)
   \<and> (\<exists>t. start ev_midterm_short = toISOString example_runtime t
         \<and> end' ev_midterm_short = Some (toISOString example_runtime (t + 90000)))
   \<and> start ev_midterm_short = js ''2025-10-06T13:30:00.000Z''
   \<and> end' ev_midterm_short = Some (js ''2025-10-06T13:31:30.000Z'')"
proof -
  let ?req = "example_request batch_text (JNum (Fin (3 / 2)))"
  have m: "ev_midterm_short \<in> set (events_of (POST example_runtime ?req))"
    by (simp add: example_POST example_minutes events_of_def)
  have s: "sourceLine ev_midterm_short = line_midterm" by (simp add: ev_midterm_short_def)
  have x: "req_results example_runtime ?req (sourceLine ev_midterm_short) = Some [res_midterm]"
    by (simp add: s req_results_def example_extraction)
  have f: "pend res_midterm = None" "hasTimeToken (sourceLine ev_midterm_short)"
    "\<not> isDeadline (sourceLine ev_midterm_short)"
    by (simp_all add: s res_midterm_def example_flags)
  have n: "Number example_runtime (body_defaultDurationMinutes ?req) = Fin (3 / 2)"
    by (simp add: example_request_fields Number_def)
  have i: "is_int (3 / 2 * 60)" "\<bar>3 / 2 :: rat\<bar> \<le> 6000000000" "\<lfloor>3 / 2 * 60000 :: rat\<rfloor> = 90000"
    by (simp_all add: is_int_def)
  have v: "start ev_midterm_short = js ''2025-10-06T13:30:00.000Z''"
    "end' ev_midterm_short = Some (js ''2025-10-06T13:31:30.000Z'')"
    by (simp_all add: ev_midterm_short_def)
  from end_policy_without_range [OF m] obtain r rest rs t where
    h: "req_results example_runtime ?req (sourceLine ev_midterm_short) = Some (r # rest)"
      "start ev_midterm_short = toISOString example_runtime t"
    and pol: "pend r = None
        \<and> (isCertain rs Hour \<or> isCertain rs Minute \<or> hasTimeToken (sourceLine ev_midterm_short))
        \<and> \<not> isDeadline (sourceLine ev_midterm_short)
       \<longrightarrow> (\<exists>m. (Number example_runtime (body_defaultDurationMinutes ?req) \<noteq> NaN
                   \<and> Number example_runtime (body_defaultDurationMinutes ?req) \<noteq> Fin 0
                  \<longrightarrow> m = Number example_runtime (body_defaultDurationMinutes ?req))
              \<and> (\<forall>q. m = Fin q \<and> is_int (q * 60) \<and> \<bar>q\<bar> \<le> 6000000000
                    \<longrightarrow> end' ev_midterm_short
                        = Some (toISOString example_runtime (t + \<lfloor>q * 60000\<rfloor>))))"
    by blast
  from h(1) x have "r = res_midterm" by simp
  with pol f n obtain m where "m = Fin (3 / 2)"
    and "\<forall>q. m = Fin q \<and> is_int (q * 60) \<and> \<bar>q\<bar> \<le> 6000000000
        \<longrightarrow> end' ev_midterm_short = Some (toISOString example_runtime (t + \<lfloor>q * 60000\<rfloor>))"
    by auto
  with i have "end' ev_midterm_short = Some (toISOString example_runtime (t + 90000))"
    by metis
  with m x f n i(1) h(2) v show ?thesis by blast
qed

subsection \<open>C3: all-day events\<close>

text \<open>
  Claim C3: for every emitted event, \<open>allDay\<close> is true if and only if no time-of-day
  information was found in its line, that is, the extraction gave neither a certain
  hour nor a certain minute, there was no range, and the line has no time token; and
  whenever \<open>allDay\<close> is true the end of the event is absent. The line of an event is
  its \<open>sourceLine\<close>; \<open>req_results\<close> is what the extraction returned for it.
\<close>

theorem allDay_iff_no_time_information:
  assumes "e \<in> set (events_of (POST rt req))"
  shows "\<exists>r rest rs. req_results rt req (sourceLine e) = Some (r # rest) \<and> pstart r = Some rs
     \<and> (allDay e \<longleftrightarrow> \<not> isCertain rs Hour \<and> \<not> isCertain rs Minute \<and> pend r = None
           \<and> \<not> hasTimeToken (sourceLine e))
     \<and> (allDay e \<longrightarrow> end' e = None)"
proof -
  from POST_event [OF assms] obtain r rest where
    x: "req_results rt req (sourceLine e) = Some (r # rest)"
    and r: "resolve rt (req_refYear rt req) (req_duration req) (sourceLine e) r = Inr (Some e)"
    by blast
  from resolve_Some [OF r] obtain rs where rs: "pstart r = Some rs"
    and ad: "allDay e = (\<not> (isCertain rs Hour \<or> isCertain rs Minute \<or> pend r \<noteq> None
        \<or> hasTimeToken (sourceLine e)))"
    and en: "pend r = None \<and> (\<not> (isCertain rs Hour \<or> isCertain rs Minute
        \<or> hasTimeToken (sourceLine e)) \<or> isDeadline (sourceLine e)) \<longrightarrow> end' e = None"
    by blast
  from ad en have "allDay e \<longrightarrow> end' e = None" by auto
  with x rs ad show ?thesis by auto
qed

theorem allDay_iff_no_time_information_witness:
  "ev_final \<in> set (events_of (POST example_runtime (example_request batch_text JUndefined)))
   \<and> ev_midterm \<in> set (events_of (POST example_runtime (example_request batch_text JUndefined)))
   \<and> allDay ev_final \<and> end' ev_final = None \<and> \<not> allDay ev_midterm
   \<and> (\<exists>r rest rs. req_results example_runtime (example_request batch_text JUndefined)
          (sourceLine ev_final) = Some (r # rest) \<and> pstart r = Some rs
        \<and> \<not> isCertain rs Hour \<and> \<not> isCertain rs Minute \<and> pend r = None
        \<and> \<not> hasTimeToken (sourceLine ev_final))
   \<and> (\<exists>r rest rs. req_results example_runtime (example_request batch_text JUndefined)
          (sourceLine ev_midterm) = Some (r # rest) \<and> pstart r = Some rs
        \<and> \<not> (\<not> isCertain rs Hour \<and> \<not> isCertain rs Minute \<and> pend r = None
        \<and> \<not> hasTimeToken (sourceLine ev_midterm)))"
proof -
  let ?req = "example_request batch_text JUndefined"
  have m: "ev_final \<in> set (events_of (POST example_runtime ?req))"
    "ev_midterm \<in> set (events_of (POST example_runtime ?req))"
    by (simp_all add: example_POST example_minutes events_of_def)
  have a: "allDay ev_final" "\<not> allDay ev_midterm"
    by (simp_all add: ev_final_def ev_midterm_def)
  from allDay_iff_no_time_information [OF m(1)] allDay_iff_no_time_information [OF m(2)] m a
  show ?thesis by auto
qed

subsection \<open>C4: the deadline-time rescue on "HW2 due 10/9"\<close>

text \<open>
  Claim C4: for the input line "HW2 due 10/9", default time "23:59" and fallback year
  2025, the deadline-time rescue applies and the resolver emits an event with start
  2025-10-09T23:59, no end and \<open>allDay\<close> false. The comments of the route say the same
  of every deadline without a time: \<open>defaultTime\<close> is "used only for deadlines that lack
  an explicit time", and "If it's a deadline with no explicit time, append defaultTime
  for a specific instant". The code makes the retry under the further condition
  \<open>results.length === 0\<close>: only when the extraction found nothing on the line itself.
  The line holds the date "10/9", and an extraction that finds it at the first attempt
  is never asked again with the default time appended. The route then does not do what
  the claim and its own comments say: whatever the default time, the one event of the
  response is an all-day event without an end, at the time of day that the extraction
  implied for the date.
\<close>

theorem deadline_rescue_skipped_when_date_found:
  assumes "body_text req = JStr line_hw2"
    and "body_fallbackYear req = JNum (Fin 2025)"
    and "toLowerCase rt line_hw2 = js ''hw2 due 10/9''"
    and "chrono_parse rt line_hw2 (req_referenceDate rt req) = Some (r # rest)"
    and "pstart r = Some rs" and "isValid (date rs)"
    and "isCertain rs Month" and "isCertain rs Day"
    and "\<not> isCertain rs Hour" and "\<not> isCertain rs Minute"
    and "pend r = None"
    and "force_year rt (Fin 2025) rs = Time t"
  shows "isDeadline line_hw2 \<and> \<not> hasTimeToken line_hw2
     \<and> req_results rt req line_hw2 = Some (r # rest)
     \<and> POST rt req = \<lparr>payload = EventArray
          [\<lparr>title = line_hw2, start = toISOString rt t, end' = None, allDay = True,
            sourceLine = line_hw2\<rparr>], status = 200\<rparr>"
proof -
  have y: "req_refYear rt req = Fin 2025"
    using assms(2) by (simp add: req_refYear_def refYear_of_def Number_def isFinite_def)
  have t: "truthy (body_text req)"
    using assms(1) by (simp add: example_truthy)
  have x: "extraction rt (req_referenceDate rt req) dt line_hw2 = Some (r # rest)" for dt
    using assms(4) by (simp add: extraction_def)
  have "resolve rt (Fin 2025) (req_duration req) line_hw2 r = Inr (Some
     \<lparr>title = line_hw2, start = toISOString rt t, end' = None, allDay = True,
       sourceLine = line_hw2\<rparr>)"
    using assms(5-12)
    by (auto simp: resolve_def emit_def example_flags example_titles line_hw2_not_Nil Let_def)
  with x have "processLine rt (Fin 2025) (req_referenceDate rt req) (req_duration req)
      (req_defaultTime req) line_hw2 = Inr (Some
     \<lparr>title = line_hw2, start = toISOString rt t, end' = None, allDay = True,
       sourceLine = line_hw2\<rparr>)"
    by (simp add: processLine_def)
  then have "POST rt req = \<lparr>payload = EventArray
          [\<lparr>title = line_hw2, start = toISOString rt t, end' = None, allDay = True,
            sourceLine = line_hw2\<rparr>], status = 200\<rparr>"
    using assms(1,3)
    by (simp add: POST_def POST_of_lines [OF t] y hw2_lines unique_single)
  with x show ?thesis by (simp add: req_results_def example_flags)
qed

theorem deadline_rescue_skipped_when_date_found_witness:
  "body_text (example_request line_hw2 JUndefined) = JStr line_hw2
   \<and> body_fallbackYear (example_request line_hw2 JUndefined) = JNum (Fin 2025)
   \<and> req_defaultTime (example_request line_hw2 JUndefined) = JStr (js ''23:59'')
   \<and> chrono_parse slash_runtime line_hw2
        (req_referenceDate slash_runtime (example_request line_hw2 JUndefined))
      = Some [res_hw2_noon]
   \<and> chrono_parse slash_runtime line_hw2_retry
        (req_referenceDate slash_runtime (example_request line_hw2 JUndefined))
      = Some [res_hw2_2359]
   \<and> pstart res_hw2_noon = Some \<lparr>date = Time 1760011200000, certain = [Month, Day]\<rparr>
   \<and> pend res_hw2_noon = None
   \<and> isDeadline line_hw2 \<and> \<not> hasTimeToken line_hw2
   \<and> req_results slash_runtime (example_request line_hw2 JUndefined) line_hw2
      = Some [res_hw2_noon]
   \<and> POST slash_runtime (example_request line_hw2 JUndefined)
      = \<lparr>payload = EventArray [ev_hw2_allday], status = 200\<rparr>
   \<and> allDay ev_hw2_allday \<and> end' ev_hw2_allday = None
   \<and> start ev_hw2_allday = js ''2025-10-09T12:00:00.000Z''
   \<and> start ev_hw2_allday \<noteq> js ''2025-10-09T23:59:00.000Z''"
proof -
  let ?req = "example_request line_hw2 JUndefined"
  let ?rs = "\<lparr>date = Time 1760011200000, certain = [Month, Day]\<rparr>"
  have a: "body_text ?req = JStr line_hw2" "body_fallbackYear ?req = JNum (Fin 2025)"
    by (simp_all add: example_request_def)
  have dt: "req_defaultTime ?req = JStr (js ''23:59'')"
    by (simp add: example_request_def req_defaultTime_def default_to_def)
  have b: "toLowerCase slash_runtime line_hw2 = js ''hw2 due 10/9''"
    by (simp add: runtime_fields utc_toLowerCase_def line_defs js_def fold_case_def is_upper_def)
  have c: "chrono_parse slash_runtime line_hw2 (req_referenceDate slash_runtime ?req)
       = Some (res_hw2_noon # [])"
    by (simp add: runtime_fields example_lookup)
  have c': "chrono_parse slash_runtime line_hw2_retry (req_referenceDate slash_runtime ?req)
       = Some [res_hw2_2359]"
    by (simp add: runtime_fields table_parse_def example_table_def line_defs js_def)
  have d: "pstart res_hw2_noon = Some ?rs" "isValid (date ?rs)"
    "isCertain ?rs Month" "isCertain ?rs Day" "\<not> isCertain ?rs Hour" "\<not> isCertain ?rs Minute"
    "pend res_hw2_noon = None"
    "force_year slash_runtime (Fin 2025) ?rs = Time 1760011200000"
    by (simp_all add: res_hw2_noon_def isValid_def isCertain_def force_year_def
        runtime_fields example_years)
  have e: "allDay ev_hw2_allday" "end' ev_hw2_allday = None"
    "start ev_hw2_allday = js ''2025-10-09T12:00:00.000Z''"
    "start ev_hw2_allday \<noteq> js ''2025-10-09T23:59:00.000Z''"
    by (simp_all add: ev_hw2_allday_def js_def)
  from deadline_rescue_skipped_when_date_found [OF a b c d]
  have f: "isDeadline line_hw2" "\<not> hasTimeToken line_hw2"
    "req_results slash_runtime ?req line_hw2 = Some [res_hw2_noon]"
    "POST slash_runtime ?req = \<lparr>payload = EventArray [ev_hw2_allday], status = 200\<rparr>"
    by (simp_all add: ev_hw2_allday_def runtime_fields example_iso)
  from a dt c c' d(1,7) e f show ?thesis by simp
qed

subsection \<open>C5: the title is not empty\<close>

text \<open>
  Claim C5: for every non-empty input line, \<open>extractTitle\<close> returns a non-empty
  string, and when there is no spaced dash and the stripping leaves nothing but
  whitespace it falls back to the trimmed original line. \<open>extractTitle\<close> is private to
  the route, whose loop calls it on the lines of \<open>input_lines\<close> only: the lines of the
  text, trimmed, without the empty ones. Such a line is not empty and does not end
  with whitespace, so what follows its first spaced dash, trimmed, is not empty either;
  the second conjunct says so of every line of that shape.
\<close>

theorem extractTitle_nonempty_on_input_lines:
  "(l \<in> set (input_lines rt v) \<longrightarrow>
      l \<noteq> [] \<and> extractTitle l \<noteq> []
      \<and> (\<not> 1 < length (split_js False dash_rx l) \<and> trim_js (strip_tokens l) = []
           \<longrightarrow> extractTitle l = trim_js l))
   \<and> (line \<noteq> [] \<and> \<not> is_space (last line) \<longrightarrow> extractTitle line \<noteq> [])"
  using extractTitle_last input_lines_trimmed
  by (auto simp: extractTitle_def Let_def)

theorem extractTitle_nonempty_on_input_lines_witness:
  "js ''10/02'' \<in> set (input_lines example_runtime (JStr (js ''10/02'')))
   \<and> \<not> 1 < length (split_js False dash_rx (js ''10/02''))
   \<and> trim_js (strip_tokens (js ''10/02'')) = []
   \<and> extractTitle (js ''10/02'') \<noteq> []
   \<and> extractTitle (js ''10/02'') = trim_js (js ''10/02'')
   \<and> line_dup_a \<noteq> [] \<and> \<not> is_space (last line_dup_a)
   \<and> 1 < length (split_js False dash_rx line_dup_a)
   \<and> extractTitle line_dup_a \<noteq> []"
proof -
  have a: "js ''10/02'' \<in> set (input_lines example_runtime (JStr (js ''10/02'')))"
    by (simp add: runtime_fields filter_eval rx_eval)
  have b: "\<not> 1 < length (split_js False dash_rx (js ''10/02''))"
    "trim_js (strip_tokens (js ''10/02'')) = []"
    by (simp_all add: title_eval rx_eval Let_def)
  have c: "line_dup_a \<noteq> []" "\<not> is_space (last line_dup_a)"
    "1 < length (split_js False dash_rx line_dup_a)"
    by (simp_all add: line_defs title_eval rx_eval)
  from extractTitle_nonempty_on_input_lines [of "js ''10/02''" example_runtime
      "JStr (js ''10/02'')" line_dup_a] a b c
  show ?thesis by blast
qed

subsection \<open>C6: month and day of the start are certain\<close>

text \<open>
  Claim C6: the start of every emitted event has a certain month and a certain day in
  the extraction result of its line, and a line whose extracted start lacks a certain
  month or a certain day is discarded: the loop body continues without an event.
\<close>

theorem start_has_certain_month_and_day:
  "(e \<in> set (events_of (POST rt req)) \<longrightarrow>
      (\<exists>r rest rs. req_results rt req (sourceLine e) = Some (r # rest) \<and> pstart r = Some rs
         \<and> isCertain rs Month \<and> isCertain rs Day))
   \<and> (extraction rt ref dt line = Some (r' # rest') \<and> pstart r' = Some rs'
        \<and> \<not> (isCertain rs' Month \<and> isCertain rs' Day)
      \<longrightarrow> processLine rt y ref dur dt line = Inr None)"
proof (intro conjI impI)
  assume "e \<in> set (events_of (POST rt req))"
  from POST_event [OF this] obtain r rest where
    x: "req_results rt req (sourceLine e) = Some (r # rest)"
    and r: "resolve rt (req_refYear rt req) (req_duration req) (sourceLine e) r = Inr (Some e)"
    by blast
  from resolve_Some [OF r] x
  show "\<exists>r rest rs. req_results rt req (sourceLine e) = Some (r # rest) \<and> pstart r = Some rs
         \<and> isCertain rs Month \<and> isCertain rs Day"
    by blast
next
  assume "extraction rt ref dt line = Some (r' # rest') \<and> pstart r' = Some rs'
        \<and> \<not> (isCertain rs' Month \<and> isCertain rs' Day)"
  then show "processLine rt y ref dur dt line = Inr None"
    by (auto simp: processLine_def resolve_def)
qed

theorem start_has_certain_month_and_day_witness:
  "ev_hw1 \<in> set (events_of (POST example_runtime (example_request batch_text JUndefined)))
   \<and> (\<exists>r rest rs. req_results example_runtime (example_request batch_text JUndefined)
          (sourceLine ev_hw1) = Some (r # rest) \<and> pstart r = Some rs
        \<and> isCertain rs Month \<and> isCertain rs Day)
   \<and> extraction example_runtime (Time 0) JUndefined line_quiz = Some (res_quiz # [])
   \<and> pstart res_quiz = Some \<lparr>date = Time 1754060400000, certain = [Hour]\<rparr>
   \<and> \<not> (isCertain \<lparr>date = Time 1754060400000, certain = [Hour]\<rparr> Month
         \<and> isCertain \<lparr>date = Time 1754060400000, certain = [Hour]\<rparr> Day)
   \<and> processLine example_runtime (Fin 2025) (Time 0) JUndefined JUndefined line_quiz = Inr None"
proof -
  let ?req = "example_request batch_text JUndefined"
  let ?rs = "\<lparr>date = Time 1754060400000, certain = [Hour]\<rparr>"
  have m: "ev_hw1 \<in> set (events_of (POST example_runtime ?req))"
    by (simp add: example_POST example_minutes events_of_def)
  have q: "extraction example_runtime (Time 0) JUndefined line_quiz = Some (res_quiz # [])"
    "pstart res_quiz = Some ?rs" "\<not> (isCertain ?rs Month \<and> isCertain ?rs Day)"
    by (simp_all add: example_extraction res_quiz_def isCertain_def)
  from start_has_certain_month_and_day [of ev_hw1 example_runtime ?req "Time 0" JUndefined
      line_quiz res_quiz "[]" ?rs "Fin 2025" JUndefined] m q
  show ?thesis by blast
qed

subsection \<open>C7: an invalid range end\<close>

text \<open>
  Claim C7 says that when the range end is invalid after the year normalization, the
  line is treated as if it had no range, so that a timed line that is not a deadline
  gets the end start plus the default duration. The route drops the end, but
  \<open>hasRange\<close> was computed before and stays true, so neither branch of the
  no-range end policy runs: the event has no end.
\<close>

theorem invalid_range_end_counterexample:
  "req_results example_runtime (example_request line_range JUndefined) line_range
      = Some [res_range]
   \<and> pstart res_range = Some (timed 1759757400000)
   \<and> pend res_range = Some \<lparr>date = InvalidDate, certain = [Year, Month, Day, Hour, Minute]\<rparr>
   \<and> \<not> isDeadline line_range
   \<and> POST example_runtime (example_request line_range JUndefined)
      = \<lparr>payload = EventArray [ev_range], status = 200\<rparr>
   \<and> start ev_range = toISOString example_runtime 1759757400000
   \<and> end' ev_range = None
   \<and> end' ev_range \<noteq> Some (toISOString example_runtime (1759757400000 + 60 * 60 * 1000))"
  by (simp add: req_results_def example_extraction example_flags example_POST)
    (simp add: res_range_def ev_range_def runtime_fields example_iso)

text \<open>
  C7 as amended: when the extraction produces a range end that is invalid after the
  year normalization, the end is dropped and the event is still emitted, with its start
  kept as a single instant: it has no end and it is not an all-day event. The line
  still counts as a range, so no default duration is added.
\<close>

theorem invalid_range_end_is_dropped:
  assumes "extraction rt ref dt line = Some (r # rest)"
    and "pstart r = Some rs" and "isValid (date rs)"
    and "isCertain rs Month" and "isCertain rs Day"
    and "pend r = Some re" and "force_year rt y re = InvalidDate"
    and "force_year rt y rs = Time t"
  shows "processLine rt y ref dur dt line = Inr (Some
     \<lparr>title = (if extractTitle line \<noteq> [] then extractTitle line else js ''Course Event''),
      start = toISOString rt t, end' = None, allDay = False, sourceLine = line\<rparr>)"
  using assms by (simp add: processLine_def resolve_def emit_def isValid_def Let_def)

theorem invalid_range_end_is_dropped_witness:
  "extraction example_runtime (Time 0) JUndefined line_range = Some [res_range]
   \<and> pstart res_range = Some (timed 1759757400000)
   \<and> pend res_range = Some \<lparr>date = InvalidDate, certain = [Year, Month, Day, Hour, Minute]\<rparr>
   \<and> force_year example_runtime (Fin 2025)
        \<lparr>date = InvalidDate, certain = [Year, Month, Day, Hour, Minute]\<rparr> = InvalidDate
   \<and> force_year example_runtime (Fin 2025) (timed 1759757400000) = Time 1759757400000
   \<and> processLine example_runtime (Fin 2025) (Time 0) (JNum (Fin 60)) JUndefined line_range
      = Inr (Some ev_range)
   \<and> end' ev_range = None \<and> \<not> allDay ev_range"
proof -
  let ?re = "\<lparr>date = InvalidDate, certain = [Year, Month, Day, Hour, Minute]\<rparr>"
  have a: "extraction example_runtime (Time 0) JUndefined line_range = Some (res_range # [])"
    "pstart res_range = Some (timed 1759757400000)" "isValid (date (timed 1759757400000))"
    "isCertain (timed 1759757400000) Month" "isCertain (timed 1759757400000) Day"
    "pend res_range = Some ?re" "force_year example_runtime (Fin 2025) ?re = InvalidDate"
    "force_year example_runtime (Fin 2025) (timed 1759757400000) = Time 1759757400000"
    by (simp_all add: example_extraction res_range_def timed_def isValid_def isCertain_def
        force_year_def runtime_fields example_years)
  have e: "end' ev_range = None" "\<not> allDay ev_range"
    by (simp_all add: ev_range_def)
  from invalid_range_end_is_dropped [OF a, of "JNum (Fin 60)"]
  have "processLine example_runtime (Fin 2025) (Time 0) (JNum (Fin 60)) JUndefined line_range
      = Inr (Some ev_range)"
    by (simp add: example_titles js_not_Nil ev_range_def runtime_fields example_iso)
  with a(1,2,6,7,8) e show ?thesis by simp
qed

subsection \<open>C8: start and end in the calendar export\<close>

text \<open>
  Claim C8 says that an all-day event is written with a date-only end that is the day
  after the later of its end and its start. \<open>makeICS\<close> takes \<open>e.end ?? e.start\<close>: the
  end when there is one, whatever the start. For an all-day event from 2025-10-10
  with the end 2025-10-05 the export has the end date 20251006; the day after the
  later of the two is 20251011.
\<close>

theorem all_day_end_counterexample:
  "ev_allDay ev_backwards = Some True
   \<and> ev_start ev_backwards = Time 1760054400000
   \<and> ev_end ev_backwards = Some (Time 1759622400000)
   \<and> (1759622400000 :: int) < 1760054400000
   \<and> makeICS_lines example_runtime [ev_backwards] None =
       [js ''BEGIN:VCALENDAR'', js ''VERSION:2.0'', js ''PRODID:-//SyllabusToCalendar//EN'',
        js ''CALSCALE:GREGORIAN'', js ''NAME:Syllabus'', js ''X-WR-CALNAME:Syllabus'',
        js ''BEGIN:VEVENT'', js ''UID:0-0@syllabus.local'', js ''SUMMARY:Trip'',
        js ''DTSTAMP:19700101T000000'', js ''DTSTART;VALUE=DATE:20251010'',
        js ''DTEND;VALUE=DATE:20251006'', js ''STATUS:CONFIRMED'', js ''END:VEVENT'',
        js ''END:VCALENDAR'']
   \<and> fmtDate example_runtime (addDays example_runtime (Time 1760054400000) 1) = js ''20251011''"
proof -
  have n: "now example_runtime = Time 0" by (simp add: runtime_fields)
  have u: "NumberToString example_runtime (getTime (Time 0)) = js ''0''"
    "NumberToString example_runtime (Fin 0) = js ''0''"
    by (simp_all add: runtime_fields utc_NumberToString_def getTime_def is_int_def js_def)
  have e: "esc (js ''Trip'') = js ''Trip''" "esc (js ''Syllabus'') = js ''Syllabus''"
    by (simp_all add: esc_def replace_all_def js_def)
  have "makeICS_lines example_runtime [ev_backwards] None =
       [js ''BEGIN:VCALENDAR'', js ''VERSION:2.0'', js ''PRODID:-//SyllabusToCalendar//EN'',
        js ''CALSCALE:GREGORIAN'', js ''NAME:Syllabus'', js ''X-WR-CALNAME:Syllabus'',
        js ''BEGIN:VEVENT'', js ''UID:0-0@syllabus.local'', js ''SUMMARY:Trip'',
        js ''DTSTAMP:19700101T000000'', js ''DTSTART;VALUE=DATE:20251010'',
        js ''DTEND;VALUE=DATE:20251006'', js ''STATUS:CONFIRMED'', js ''END:VEVENT'',
        js ''END:VCALENDAR'']"
    by (simp add: makeICS_lines_def event_lines_def end_or_start_def ev_backwards_def n u e
        example_dates Let_def)
      (simp add: js_def)
  then show ?thesis by (simp add: ev_backwards_def example_dates)
qed

text \<open>
  C8 as amended: in the calendar serialization every all-day event is encoded with a
  date-only start and a date-only end that is the day after the event's end when it
  has one and the day after its start otherwise (which is the day after the later of
  the two when the end is not before the start); every timed event is encoded with
  date-time values, its end being the explicit end when present and otherwise the
  start plus 60 minutes. The lines are those of the event's block in the export.
\<close>

theorem ics_start_end_encoding:
  assumes "i < length events"
  shows "\<exists>e block. e = events ! i \<and> block = event_lines rt (fmtDateTime rt (now rt)) e i
     \<and> set block \<subseteq> set (makeICS_lines rt events calendarName)
     \<and> (ev_allDay e = Some True \<longrightarrow>
          block ! 4 = js ''DTSTART;VALUE=DATE:'' @ fmtDate rt (ev_start e)
          \<and> block ! 5 = js ''DTEND;VALUE=DATE:'' @ fmtDate rt (addDays rt (end_or_start e) 1))
     \<and> (ev_allDay e \<noteq> Some True \<longrightarrow>
          block ! 4 = js ''DTSTART:'' @ fmtDateTime rt (ev_start e)
          \<and> block ! 5 = js ''DTEND:'' @ fmtDateTime rt
               (case ev_end e of None \<Rightarrow> addMinutes (ev_start e) 60 | Some d \<Rightarrow> d))
     \<and> (ev_end e = None \<longrightarrow> end_or_start e = ev_start e)
     \<and> (\<forall>d. ev_end e = Some d \<longrightarrow> end_or_start e = d)
     \<and> (\<forall>t u. ev_start e = Time t \<and> ev_end e = Some (Time u) \<and> t \<le> u \<longrightarrow>
           end_or_start e = Time (max t u))
     \<and> (\<forall>t. ev_start e = Time t \<and> \<bar>t + 3600000\<bar> \<le> 8640000000000000 \<longrightarrow>
           addMinutes (ev_start e) 60 = Time (t + 3600000))"
proof -
  have "addMinutes (Time t) 60 = Time (t + 3600000)" if "\<bar>t + 3600000\<bar> \<le> 8640000000000000" for t
    using newDate_of_int [of "t + 3600000"] that by (simp add: addMinutes_def)
  with event_lines_in_makeICS [OF assms, of rt calendarName] show ?thesis
    by (simp add: event_lines_def end_or_start_def Let_def)
qed

theorem ics_start_end_encoding_witness:
  "(0 :: nat) < length [ev_backwards]
   \<and> ev_allDay ev_backwards = Some True
   \<and> js ''DTSTART;VALUE=DATE:20251010'' \<in> set (makeICS_lines example_runtime [ev_backwards] None)
   \<and> js ''DTEND;VALUE=DATE:20251006'' \<in> set (makeICS_lines example_runtime [ev_backwards] None)"
proof -
  have a: "(0 :: nat) < length [ev_backwards]" "ev_allDay ev_backwards = Some True"
    by (simp_all add: ev_backwards_def)
  let ?block = "event_lines example_runtime (fmtDateTime example_runtime (now example_runtime))
      ev_backwards 0"
  from ics_start_end_encoding [OF a(1), of example_runtime None] a(2)
  have s: "set ?block \<subseteq> set (makeICS_lines example_runtime [ev_backwards] None)"
    and b: "?block ! 4 = js ''DTSTART;VALUE=DATE:'' @ fmtDate example_runtime (ev_start ev_backwards)"
      "?block ! 5 = js ''DTEND;VALUE=DATE:''
         @ fmtDate example_runtime (addDays example_runtime (end_or_start ev_backwards) 1)"
    by simp_all
  have l: "4 < length ?block" "5 < length ?block"
    by (simp_all add: event_lines_def ev_backwards_def Let_def)
  from l have "?block ! 4 \<in> set ?block" "?block ! 5 \<in> set ?block"
    by (simp_all only: nth_mem)
  with s b have "js ''DTSTART;VALUE=DATE:'' @ fmtDate example_runtime (ev_start ev_backwards)
      \<in> set (makeICS_lines example_runtime [ev_backwards] None)"
    "js ''DTEND;VALUE=DATE:''
         @ fmtDate example_runtime (addDays example_runtime (end_or_start ev_backwards) 1)
      \<in> set (makeICS_lines example_runtime [ev_backwards] None)"
    by auto
  moreover have "js ''DTSTART;VALUE=DATE:'' @ fmtDate example_runtime (ev_start ev_backwards)
      = js ''DTSTART;VALUE=DATE:20251010''"
    "js ''DTEND;VALUE=DATE:''
         @ fmtDate example_runtime (addDays example_runtime (end_or_start ev_backwards) 1)
      = js ''DTEND;VALUE=DATE:20251006''"
    by (simp_all add: end_or_start_def ev_backwards_def example_dates js_def)
  ultimately show ?thesis using a by simp
qed

subsection \<open>C9: empty input and internal failure\<close>

text \<open>
  Claim C9: when the text of the request is empty (or otherwise falsy), and when
  anything inside the route throws, the response is the empty event array with status
  200, never an error object; whatever the request, the route returns a response with
  an event array and throws nothing. \<open>POST_try\<close> is the body of the \<open>try\<close> block,
  \<open>Inl x\<close> when it throws \<open>x\<close>.
\<close>

theorem POST_never_fails:
  "(\<not> truthy (body_text req) \<longrightarrow> POST rt req = \<lparr>payload = EventArray [], status = 200\<rparr>)
   \<and> (\<forall>x. POST_try rt req = Inl x \<longrightarrow> POST rt req = \<lparr>payload = EventArray [], status = 200\<rparr>)
   \<and> (\<exists>evs. POST rt req = \<lparr>payload = EventArray evs, status = 200\<rparr>)"
  using POST_cases [of rt req] by (auto simp: POST_def POST_try_def)

theorem POST_never_fails_witness:
  "\<not> truthy (body_text (example_request [] JUndefined))
   \<and> POST example_runtime (example_request [] JUndefined)
      = \<lparr>payload = EventArray [], status = 200\<rparr>
   \<and> POST_try faulty_runtime (example_request line_final JUndefined) = Inl ExtractionFault
   \<and> POST faulty_runtime (example_request line_final JUndefined)
      = \<lparr>payload = EventArray [], status = 200\<rparr>"
proof -
  have a: "\<not> truthy (body_text (example_request [] JUndefined))"
    by (simp add: example_request_fields truthy_def)
  have b: "POST_try faulty_runtime (example_request line_final JUndefined) = Inl ExtractionFault"
    by (rule example_POST)
  from POST_never_fails [of "example_request [] JUndefined" example_runtime] a
  have c: "POST example_runtime (example_request [] JUndefined)
      = \<lparr>payload = EventArray [], status = 200\<rparr>"
    by blast
  from POST_never_fails [of "example_request line_final JUndefined" faulty_runtime] b
  have d: "POST faulty_runtime (example_request line_final JUndefined)
      = \<lparr>payload = EventArray [], status = 200\<rparr>"
    by blast
  from a b c d show ?thesis by blast
qed

subsection \<open>C10: a duration of zero or not a number\<close>

text \<open>
  Claim C10: when the request gives \<open>defaultDurationMinutes\<close> as 0, or as a value
  that \<open>Number\<close> does not coerce to a number (it yields \<open>NaN\<close>), the resolver uses
  60 minutes: every emitted event of a timed line without a range that is not a
  deadline ends 60 minutes after its start, so an explicit 0 gives no event of
  length zero.
\<close>

theorem zero_or_non_numeric_duration_is_sixty:
  assumes "e \<in> set (events_of (POST rt req))"
    and "Number rt (body_defaultDurationMinutes req) = Fin 0
       \<or> Number rt (body_defaultDurationMinutes req) = NaN"
  shows "minutes_of rt (req_duration req) = Fin 60
     \<and> (\<exists>r rest rs t. req_results rt req (sourceLine e) = Some (r # rest) \<and> pstart r = Some rs
          \<and> force_year rt (req_refYear rt req) rs = Time t \<and> start e = toISOString rt t
          \<and> (pend r = None
               \<and> (isCertain rs Hour \<or> isCertain rs Minute \<or> hasTimeToken (sourceLine e))
               \<and> \<not> isDeadline (sourceLine e)
              \<longrightarrow> end' e = Some (toISOString rt (t + 60 * 60 * 1000))))"
proof -
  from assms(2) have m: "minutes_of rt (req_duration req) = Fin 60"
    by (auto simp: req_duration_def default_to_def minutes_of_def Number_def)
  from POST_event [OF assms(1)] obtain r rest where
    x: "req_results rt req (sourceLine e) = Some (r # rest)"
    and r: "resolve rt (req_refYear rt req) (req_duration req) (sourceLine e) r = Inr (Some e)"
    by blast
  from resolve_Some [OF r] obtain rs t where rs: "pstart r = Some rs"
    and t: "force_year rt (req_refYear rt req) rs = Time t" "start e = toISOString rt t"
    and tm: "pend r = None \<and> (isCertain rs Hour \<or> isCertain rs Minute
        \<or> hasTimeToken (sourceLine e)) \<and> \<not> isDeadline (sourceLine e)
        \<longrightarrow> (\<exists>u. newDate (num_add rt (getTime (Time t))
                  (num_times rt (num_times rt (minutes_of rt (req_duration req)) 60) 1000)) = Time u
              \<and> end' e = Some (toISOString rt u))"
    by blast
  have i: "is_int (60 * 60)" "\<bar>60 :: rat\<bar> \<le> 6000000000" "\<lfloor>60 * 60000 :: rat\<rfloor> = 3600000"
    by (simp_all add: is_int_def)
  have "end' e = Some (toISOString rt (t + 60 * 60 * 1000))"
    if "newDate (num_add rt (getTime (Time t))
          (num_times rt (num_times rt (minutes_of rt (req_duration req)) 60) 1000)) = Time u"
      and "end' e = Some (toISOString rt u)" for u
    using timed_end_exact [of rt t 60 u] that i by (simp add: m)
  with tm have "pend r = None
       \<and> (isCertain rs Hour \<or> isCertain rs Minute \<or> hasTimeToken (sourceLine e))
       \<and> \<not> isDeadline (sourceLine e)
      \<longrightarrow> end' e = Some (toISOString rt (t + 60 * 60 * 1000))"
    by blast
  with m x rs t show ?thesis by blast
qed

theorem zero_or_non_numeric_duration_is_sixty_witness:
  "ev_midterm \<in> set (events_of (POST example_runtime (example_request batch_text (JNum (Fin 0)))))
   \<and> Number example_runtime (body_defaultDurationMinutes (example_request batch_text (JNum (Fin 0))))
      = Fin 0
   \<and> req_results example_runtime (example_request batch_text (JNum (Fin 0))) (sourceLine ev_midterm)
      = Some [res_midterm]
   \<and> pend res_midterm = None
   \<and> hasTimeToken (sourceLine ev_midterm) \<and> \<not> isDeadline (sourceLine ev_midterm)
   \<and> minutes_of example_runtime (req_duration (example_request batch_text (JNum (Fin 0)))) = Fin 60
   \<and> (\<exists>t. start ev_midterm = toISOString example_runtime t
         \<and> end' ev_midterm = Some (toISOString example_runtime (t + 60 * 60 * 1000)))"
proof -
  let ?req = "example_request batch_text (JNum (Fin 0))"
  have m: "ev_midterm \<in> set (events_of (POST example_runtime ?req))"
    by (simp add: example_POST example_minutes events_of_def)
  have z: "Number example_runtime (body_defaultDurationMinutes ?req) = Fin 0"
    by (simp add: example_request_fields Number_def)
  then have z': "Number example_runtime (body_defaultDurationMinutes ?req) = Fin 0
       \<or> Number example_runtime (body_defaultDurationMinutes ?req) = NaN" by simp
  have s: "sourceLine ev_midterm = line_midterm" by (simp add: ev_midterm_def)
  have x: "req_results example_runtime ?req (sourceLine ev_midterm) = Some [res_midterm]"
    by (simp add: s req_results_def example_extraction)
  have f: "pend res_midterm = None" "hasTimeToken (sourceLine ev_midterm)"
    "\<not> isDeadline (sourceLine ev_midterm)"
    by (simp_all add: s res_midterm_def example_flags)
  from zero_or_non_numeric_duration_is_sixty [OF m z'] obtain r rest rs t where
    d: "minutes_of example_runtime (req_duration ?req) = Fin 60"
    and h: "req_results example_runtime ?req (sourceLine ev_midterm) = Some (r # rest)"
      "start ev_midterm = toISOString example_runtime t"
    and pol: "pend r = None
        \<and> (isCertain rs Hour \<or> isCertain rs Minute \<or> hasTimeToken (sourceLine ev_midterm))
        \<and> \<not> isDeadline (sourceLine ev_midterm)
       \<longrightarrow> end' ev_midterm = Some (toISOString example_runtime (t + 60 * 60 * 1000))"
    by blast
  from h(1) x have "r = res_midterm" by simp
  with pol f have "end' ev_midterm = Some (toISOString example_runtime (t + 60 * 60 * 1000))"
    by auto
  with m z x f d h(2) show ?thesis by blast
qed

end
